theory Spec2Isabelle
  imports Complex_Main "HOL-Library.Multiset" "HOL-Library.Code_Target_Numeral"
begin

section \<open>The ledger of \<^verbatim>\<open>src/App.jsx\<close>: data model\<close>

text \<open>
  A JavaScript string is a sequence of UTF-16 code units; a code unit is modelled by its
  number. The literals of the program are ASCII and are written through \<open>ascii\<close>.

  A Firestore \<open>Timestamp\<close> is modelled by the integer \<open>toMillis()\<close> returns.
\<close>

type_synonym jsstring = "nat list"

definition ascii :: "string \<Rightarrow> jsstring" where
  "ascii s = map of_char s"

subsection \<open>Numbers\<close>

text \<open>
  A JavaScript number is an IEEE 754 double: \<open>NaN\<close>, an infinity with its sign, or a
  finite value, given by its sign (\<open>True\<close> is negative; there is a negative zero) and
  its magnitude, the exact rational value of the double.

  \<open>roundToDouble\<close> rounds a magnitude to the nearest double, ties to the even
  significand: 53 bits of significand, exponents from -1022 (below, the subnormal
  numbers with their fixed spacing) to 1023 (above, infinity). For the fraction \<open>p / q\<close>,
  \<open>binaryExponent\<close> is the integer \<open>e\<close> with \<open>2 ^ e \<le> p / q < 2 ^ (e + 1)\<close>.
\<close>

datatype jsnumber = Finite bool rat | Infinity bool | NaN

fun bitLength :: "nat \<Rightarrow> nat" where
  "bitLength n = (if n = 0 then 0 else Suc (bitLength (n div 2)))"

declare bitLength.simps [simp del]

definition binaryExponent :: "nat \<Rightarrow> nat \<Rightarrow> int" where
  "binaryExponent p q =
     (let d = int (bitLength p) - int (bitLength q) in
      if q * 2 ^ nat d \<le> p * 2 ^ nat (- d) then d else d - 1)"

definition roundHalfEven :: "nat \<Rightarrow> nat \<Rightarrow> nat" where
  "roundHalfEven a b =
     (let f = a div b; r = a mod b in
      if 2 * r < b then f else if b < 2 * r then f + 1 else if even f then f else f + 1)"

definition scale2 :: "nat \<Rightarrow> int \<Rightarrow> rat" where
  "scale2 n e = (if 0 \<le> e then of_nat n * 2 ^ nat e else of_nat n / 2 ^ nat (- e))"

definition roundFraction :: "bool \<Rightarrow> nat \<Rightarrow> nat \<Rightarrow> jsnumber" where
  "roundFraction negative p q =
     (if p = 0 then Finite negative 0
      else
        let e = max (binaryExponent p q) (- 1022);
            n = roundHalfEven (p * 2 ^ nat (52 - e)) (q * 2 ^ nat (e - 52))
        in if 1024 \<le> e \<or> (e = 1023 \<and> 2 ^ 53 \<le> n) then Infinity negative
           else Finite negative (scale2 n (e - 52)))"

definition roundToDouble :: "bool \<Rightarrow> rat \<Rightarrow> jsnumber" where
  "roundToDouble negative x =
     (case quotient_of x of (p, q) \<Rightarrow> roundFraction negative (nat p) (nat q))"

text \<open>
  \<open>x + y\<close> and \<open>x - y\<close> on numbers: the exact sum, rounded; a sum that is exactly zero
  is negative zero only when both terms are negative.
\<close>

definition signedValue :: "bool \<Rightarrow> rat \<Rightarrow> rat" where
  "signedValue negative m = (if negative then - m else m)"

fun jsAdd :: "jsnumber \<Rightarrow> jsnumber \<Rightarrow> jsnumber" where
  "jsAdd NaN y = NaN"
| "jsAdd x NaN = NaN"
| "jsAdd (Infinity s1) (Infinity s2) = (if s1 = s2 then Infinity s1 else NaN)"
| "jsAdd (Infinity s1) (Finite s2 m2) = Infinity s1"
| "jsAdd (Finite s1 m1) (Infinity s2) = Infinity s2"
| "jsAdd (Finite s1 m1) (Finite s2 m2) =
     (let v = signedValue s1 m1 + signedValue s2 m2 in
      if v = 0 then Finite (s1 \<and> s2) 0 else roundToDouble (v < 0) \<bar>v\<bar>)"

fun jsNeg :: "jsnumber \<Rightarrow> jsnumber" where
  "jsNeg (Finite s m) = Finite (\<not> s) m"
| "jsNeg (Infinity s) = Infinity (\<not> s)"
| "jsNeg NaN = NaN"

definition jsSub :: "jsnumber \<Rightarrow> jsnumber \<Rightarrow> jsnumber" where
  "jsSub x y = jsAdd x (jsNeg y)"

text \<open>
  \<open>num q\<close> is the number with the value \<open>q\<close> (for a \<open>q\<close> that a double has), \<open>toRat\<close>
  the value of a finite number; \<open>wholeAmount\<close> holds of the whole numbers from 0 on.
\<close>

definition num :: "rat \<Rightarrow> jsnumber" where
  "num q = Finite (q < 0) \<bar>q\<bar>"

definition toRat :: "jsnumber \<Rightarrow> rat" where
  "toRat n = (case n of Finite s m \<Rightarrow> signedValue s m | Infinity s \<Rightarrow> 0 | NaN \<Rightarrow> 0)"

definition wholeAmount :: "jsnumber \<Rightarrow> bool" where
  "wholeAmount n =
     (case n of Finite s m \<Rightarrow> \<not> s \<and> 0 \<le> m \<and> of_int \<lfloor>m\<rfloor> = m | Infinity s \<Rightarrow> False | NaN \<Rightarrow> False)"

subsection \<open>Documents\<close>

text \<open>
  The fields of a transaction document, as \<open>TransactionForm\<close> writes them
  (\<open>type\<close> is the direction flag). A document read back may lack any of the three
  timestamps.
\<close>

record txn =
  customerSupplierId :: jsstring
  amount :: jsnumber
  txType :: jsstring
  description :: jsstring
  date :: "int option"
  updatedAt :: "int option"
  createdAt :: "int option"

text \<open>\<open>{ id: doc.id, ...doc.data() }\<close>: a fetched transaction is its document id and its fields.\<close>

type_synonym txdoc = "jsstring \<times> txn"

text \<open>The fields of a \<open>customers_suppliers\<close> document, as \<open>AddCustomer\<close> writes them.\<close>

record contact =
  name :: jsstring
  mobile :: jsstring
  address :: jsstring
  ctype :: jsstring
  balance :: jsnumber
  contactCreatedAt :: int

text \<open>
  The two Firestore collections of one user. A collection is a list of documents
  (document id, fields) in the order the backend returns them.
\<close>

record firestore =
  customers_suppliers :: "(jsstring \<times> contact) list"
  transactions :: "txdoc list"

section \<open>Balance recomputation (\<open>CustomerDetail\<close>, the \<open>forEach\<close> of the snapshot listener)\<close>

text \<open>
  \<^verbatim>\<open>
  let currentBalance = 0;
  fetchedTransactions.forEach(t => {
    if (t.type === 'credit') { currentBalance += t.amount; }
    else if (t.type === 'debit') { currentBalance -= t.amount; }
  });
  \<close>
\<close>

fun balance_step :: "jsnumber \<Rightarrow> txdoc \<Rightarrow> jsnumber" where
  "balance_step currentBalance (i, t) =
     (if txType t = ascii ''credit'' then jsAdd currentBalance (amount t)
      else if txType t = ascii ''debit'' then jsSub currentBalance (amount t)
      else currentBalance)"

definition recalculate_balance :: "txdoc list \<Rightarrow> jsnumber" where
  "recalculate_balance fetchedTransactions = foldl balance_step (Finite False 0) fetchedTransactions"

definition is_credit :: "txdoc \<Rightarrow> bool" where
  "is_credit d = (txType (snd d) = ascii ''credit'')"

definition is_debit :: "txdoc \<Rightarrow> bool" where
  "is_debit d = (txType (snd d) = ascii ''debit'')"

definition amounts :: "txdoc list \<Rightarrow> jsnumber list" where
  "amounts ds = map (\<lambda>d. amount (snd d)) ds"

text \<open>The exact sum of the values of a list of amounts.\<close>

definition total :: "jsnumber list \<Rightarrow> rat" where
  "total ns = sum_list (map toRat ns)"

section \<open>Firestore, as the code uses it\<close>

text \<open>
  \<open>query(collection(db, .../transactions), where("customerSupplierId", "==", id))\<close>:
  the documents of the collection whose field equals the contact id.
\<close>

definition query_transactions :: "firestore \<Rightarrow> jsstring \<Rightarrow> txdoc list" where
  "query_transactions db cid =
     filter (\<lambda>d. customerSupplierId (snd d) = cid) (transactions db)"

text \<open>
  A write can be rejected by the backend (permission denied, network loss): the
  rejection is an input of the model, \<open>Some message\<close>. \<open>updateDoc\<close> is also
  rejected when the document does not exist. \<open>Inl\<close> is the rejected promise.
\<close>

definition updateDoc_balance ::
  "jsstring option \<Rightarrow> firestore \<Rightarrow> jsstring \<Rightarrow> jsnumber \<Rightarrow> jsstring + firestore" where
  "updateDoc_balance rejection db cid b =
     (case rejection of
        Some message \<Rightarrow> Inl message
      | None \<Rightarrow>
          if cid \<in> set (map fst (customers_suppliers db))
          then Inr (db\<lparr>customers_suppliers :=
                 map (\<lambda>(i, c). if i = cid then (i, c\<lparr>balance := b\<rparr>) else (i, c))
                   (customers_suppliers db)\<rparr>)
          else Inl (ascii ''No document to update''))"

text \<open>
  \<open>updateDoc(ref, transactionData)\<close> replaces the six fields of \<open>transactionData\<close> and
  leaves every other field of the document (\<open>createdAt\<close>) as it is.
\<close>

definition merge_transactionData :: "txn \<Rightarrow> txn \<Rightarrow> txn" where
  "merge_transactionData transactionData old = transactionData\<lparr>createdAt := createdAt old\<rparr>"

definition updateDoc_transaction ::
  "jsstring option \<Rightarrow> firestore \<Rightarrow> jsstring \<Rightarrow> txn \<Rightarrow> jsstring + firestore" where
  "updateDoc_transaction rejection db tid transactionData =
     (case rejection of
        Some message \<Rightarrow> Inl message
      | None \<Rightarrow>
          if tid \<in> set (map fst (transactions db))
          then Inr (db\<lparr>transactions :=
                 map (\<lambda>(i, t). if i = tid then (i, merge_transactionData transactionData t) else (i, t))
                   (transactions db)\<rparr>)
          else Inl (ascii ''No document to update''))"

text \<open>\<open>addDoc\<close> stores the fields under the fresh document id the backend chooses.\<close>

definition addDoc_transaction ::
  "jsstring option \<Rightarrow> jsstring \<Rightarrow> firestore \<Rightarrow> txn \<Rightarrow> jsstring + firestore" where
  "addDoc_transaction rejection newId db t =
     (case rejection of
        Some message \<Rightarrow> Inl message
      | None \<Rightarrow> Inr (db\<lparr>transactions := transactions db @ [(newId, t)]\<rparr>))"

definition addDoc_contact ::
  "jsstring option \<Rightarrow> jsstring \<Rightarrow> firestore \<Rightarrow> contact \<Rightarrow> jsstring + firestore" where
  "addDoc_contact rejection newId db c =
     (case rejection of
        Some message \<Rightarrow> Inl message
      | None \<Rightarrow> Inr (db\<lparr>customers_suppliers := customers_suppliers db @ [(newId, c)]\<rparr>))"

text \<open>
  \<open>appId\<close> is declared inside \<open>initializeFirebase\<close> only (line 135, \<open>const\<close> in the
  \<open>try\<close> block). The components below read it as a free identifier when they build a
  collection path (\<open>`artifacts/${appId}/users/...`\<close>): its value is whatever the global
  scope of the page binds, and the read throws \<open>ReferenceError\<close> when nothing does. The
  source binds no such global.
\<close>

definition referenceError :: jsstring where
  "referenceError = ascii ''appId is not defined''"

text \<open>
  What the components act on: the store, the global binding of \<open>appId\<close> if there is
  one, the store calls issued so far (collection, and document id for an update), the
  \<open>console.error\<close> lines, the \<open>showMessageBox\<close> calls (message, type) and the number of
  \<open>onSave()\<close> calls, each oldest first.
\<close>

datatype store_call = AddDoc jsstring | UpdateDoc jsstring jsstring

record world =
  db :: firestore
  appId :: "jsstring option"
  store_calls :: "store_call list"
  console_error :: "(jsstring \<times> jsstring) list"
  messageBox :: "(jsstring \<times> jsstring) list"
  onSave_calls :: nat

definition showMessageBox :: "jsstring \<Rightarrow> string \<Rightarrow> world \<Rightarrow> world" where
  "showMessageBox message type w = w\<lparr>messageBox := messageBox w @ [(message, ascii type)]\<rparr>"

section \<open>\<open>CustomerDetail\<close>: the snapshot listener\<close>

text \<open>
  \<^verbatim>\<open>
  fetchedTransactions.sort((a, b) => {
    const dateA = a.date ? a.date.toMillis() : 0;
    const dateB = b.date ? b.date.toMillis() : 0;
    return dateB - dateA;
  });
  \<close>
  \<open>Array.prototype.sort\<close> with a consistent comparator returns the elements in an order
  where no element is followed by one that compares before it, elements that compare
  equal keeping their order (a stable sort). Insertion from the right does that.
\<close>

definition dateMillis :: "txdoc \<Rightarrow> int" where
  "dateMillis a = (case date (snd a) of None \<Rightarrow> 0 | Some ts \<Rightarrow> ts)"

definition compareFn :: "txdoc \<Rightarrow> txdoc \<Rightarrow> int" where
  "compareFn a b = dateMillis b - dateMillis a"

fun sort_insert :: "('a \<Rightarrow> 'a \<Rightarrow> int) \<Rightarrow> 'a \<Rightarrow> 'a list \<Rightarrow> 'a list" where
  "sort_insert cmp x [] = [x]"
| "sort_insert cmp x (y # ys) =
     (if cmp x y \<le> 0 then x # y # ys else y # sort_insert cmp x ys)"

definition array_sort :: "('a \<Rightarrow> 'a \<Rightarrow> int) \<Rightarrow> 'a list \<Rightarrow> 'a list" where
  "array_sort cmp xs = foldr (sort_insert cmp) xs []"

text \<open>
  The state of the component: \<open>useState([])\<close>, \<open>useState(true)\<close> and
  \<open>useState(customerSupplier.balance || 0)\<close> (\<open>NaN\<close> and both zeros are falsy).
\<close>

record customer_detail =
  st_transactions :: "txdoc list"
  st_loadingTransactions :: bool
  st_balance :: jsnumber

definition customer_detail_init :: "contact \<Rightarrow> customer_detail" where
  "customer_detail_init customerSupplier =
     \<lparr>st_transactions = [], st_loadingTransactions = True,
      st_balance = (case balance customerSupplier of
                      NaN \<Rightarrow> Finite False 0
                    | Finite s m \<Rightarrow> if m = 0 then Finite False 0 else Finite s m
                    | Infinity s \<Rightarrow> Infinity s)\<rparr>"

text \<open>
  The write of the balance onto the contact, lines 469 and 470, inside \<open>try\<close>: the path
  is built first, which throws without a binding of \<open>appId\<close>; then \<open>updateDoc\<close> is
  awaited. \<open>Inl\<close> is what \<open>catch\<close> receives.
\<close>

definition balance_write :: "jsstring option \<Rightarrow> world \<Rightarrow> jsstring \<Rightarrow> jsnumber \<Rightarrow> jsstring + firestore" where
  "balance_write rejection w cid currentBalance =
     (case appId w of
        None \<Rightarrow> Inl referenceError
      | Some a \<Rightarrow> updateDoc_balance rejection (db w) cid currentBalance)"

text \<open>
  The listener, run on one snapshot (the documents \<open>docs\<close>). A failure of the write is
  caught and logged.
\<close>

definition onSnapshot_next ::
  "jsstring option \<Rightarrow> jsstring \<Rightarrow> txdoc list \<Rightarrow> customer_detail \<times> world \<Rightarrow> customer_detail \<times> world" where
  "onSnapshot_next rejection cid docs sw =
     (let st = fst sw; w = snd sw;
          fetchedTransactions = array_sort compareFn docs;
          st1 = st\<lparr>st_transactions := fetchedTransactions\<rparr>;
          currentBalance = recalculate_balance fetchedTransactions;
          st2 = st1\<lparr>st_balance := currentBalance\<rparr>;
          w1 = (case appId w of
                  None \<Rightarrow> w
                | Some a \<Rightarrow>
                    w\<lparr>store_calls := store_calls w @ [UpdateDoc (ascii ''customers_suppliers'') cid]\<rparr>);
          w2 = (case balance_write rejection w cid currentBalance of
                  Inr db' \<Rightarrow> w1\<lparr>db := db'\<rparr>
                | Inl error \<Rightarrow>
                    w1\<lparr>console_error := console_error w1 @
                      [(ascii ''Error updating customer/supplier balance:'', error)]\<rparr>)
      in (st2\<lparr>st_loadingTransactions := False\<rparr>, w2))"

text \<open>
  The effect that subscribes. Nothing happens without a connection
  (\<open>!db || !userId\<close>) or with an empty contact id. Otherwise the query is built, line
  439, outside any \<open>try\<close>: without a binding of \<open>appId\<close> the effect throws (\<open>Inl\<close>) and
  no listener is registered; with one, the listener receives the snapshot of the query.
\<close>

definition subscribe ::
  "bool \<Rightarrow> jsstring option \<Rightarrow> jsstring \<Rightarrow> customer_detail \<times> world \<Rightarrow> jsstring + customer_detail \<times> world" where
  "subscribe ready rejection cid sw =
     (if \<not> ready \<or> cid = [] then Inr sw
      else
        case appId (snd sw) of
          None \<Rightarrow> Inl referenceError
        | Some a \<Rightarrow>
            Inr (onSnapshot_next rejection cid (query_transactions (db (snd sw)) cid)
                   ((fst sw)\<lparr>st_loadingTransactions := True\<rparr>, snd sw)))"

section \<open>The forms\<close>

text \<open>
  \<open>String.prototype.trim\<close> removes the white space and line terminator code units of
  ECMAScript from both ends.
\<close>

definition isWhiteSpace :: "nat \<Rightarrow> bool" where
  "isWhiteSpace c =
     (c \<in> {0x09, 0x0A, 0x0B, 0x0C, 0x0D, 0x20, 0xA0, 0x1680, 0x2028, 0x2029, 0x202F, 0x205F,
            0x3000, 0xFEFF}
      \<or> (0x2000 \<le> c \<and> c \<le> 0x200A))"

definition trim :: "jsstring \<Rightarrow> jsstring" where
  "trim s = rev (dropWhile isWhiteSpace (rev (dropWhile isWhiteSpace s)))"

text \<open>
  \<open>AddCustomer.handleSubmit\<close>. The arguments are the connection (\<open>db && userId\<close>), what
  the backend answers to the write, the document id it would choose, the clock
  (\<open>new Date()\<close>) and the three fields of the form; the state is \<open>loading\<close> and the world.
\<close>

definition add_failed :: "jsstring \<Rightarrow> world \<Rightarrow> bool \<times> world" where
  "add_failed error w =
     (False,
      showMessageBox (ascii ''Failed to add contact: '' @ error) ''error''
        (w\<lparr>console_error := console_error w @ [(ascii ''Error adding customer:'', error)]\<rparr>))"

definition addCustomer_handleSubmit ::
  "bool \<Rightarrow> jsstring option \<Rightarrow> jsstring \<Rightarrow> int \<Rightarrow> jsstring \<Rightarrow> jsstring \<Rightarrow> jsstring \<Rightarrow>
   bool \<times> world \<Rightarrow> bool \<times> world" where
  "addCustomer_handleSubmit ready rejection newId now nameField mobileField addressField lw =
     (let loading = fst lw; w = snd lw in
      if trim nameField = [] then
        (loading, showMessageBox (ascii ''Name cannot be empty.'') ''error'' w)
      else if \<not> ready then
        (loading, showMessageBox (ascii ''Firebase not initialized. Please try again.'') ''error'' w)
      else
        case appId w of
          None \<Rightarrow> add_failed referenceError w
        | Some a \<Rightarrow>
            (let w1 = w\<lparr>store_calls := store_calls w @ [AddDoc (ascii ''customers_suppliers'')]\<rparr> in
             case addDoc_contact rejection newId (db w1)
                    \<lparr>name = trim nameField, mobile = trim mobileField, address = trim addressField,
                     ctype = ascii ''customer'', balance = Finite False 0, contactCreatedAt = now\<rparr> of
               Inr db' \<Rightarrow>
                 (False,
                  (showMessageBox (nameField @ ascii '' added successfully as a customer!'') ''success''
                     (w1\<lparr>db := db'\<rparr>))
                  \<lparr>onSave_calls := Suc (onSave_calls w1)\<rparr>)
             | Inl error \<Rightarrow> add_failed error w1))"

text \<open>
  The state of \<open>TransactionForm\<close>. \<open>rawAmount\<close> is only ever assigned the empty string
  or a number (the initial value, \<open>handleAmountChange\<close>), here a finite one given by
  its value; \<open>date\<close> is kept as the milliseconds of \<open>new Date(date)\<close>;
  \<open>initialTransaction\<close> is present when editing.
\<close>

datatype raw_amount = Blank | Amount rat

record transaction_form =
  rawAmount :: raw_amount
  formType :: jsstring
  formDescription :: jsstring
  formDate :: int
  initialTransaction :: "txdoc option"

text \<open>
  \<open>parseFloat(rawAmount)\<close>: the empty string has no numeric prefix (\<open>NaN\<close>, here
  \<open>None\<close>); a number is converted to its decimal representation and parsed back to itself.
\<close>

definition parseFloat_rawAmount :: "raw_amount \<Rightarrow> rat option" where
  "parseFloat_rawAmount r = (case r of Blank \<Rightarrow> None | Amount q \<Rightarrow> Some q)"

text \<open>
  \<open>TransactionForm.handleSubmit\<close>, first its \<open>try\<close> block: \<open>updateDoc\<close> when editing,
  \<open>addDoc\<close> with \<open>createdAt\<close> otherwise. The first argument of either call is the
  path, lines 904 and 908, which throws without a binding of \<open>appId\<close> before any call
  is issued. A failure is logged and shown. \<open>now2\<close> is the clock at
  \<open>createdAt: new Date()\<close>.
\<close>

definition save_failed :: "jsstring \<Rightarrow> world \<Rightarrow> bool \<times> world" where
  "save_failed error w =
     (False,
      showMessageBox (ascii ''Failed to save transaction: '' @ error) ''error''
        (w\<lparr>console_error := console_error w @ [(ascii ''Error saving transaction:'', error)]\<rparr>))"

definition save_done :: "jsstring \<Rightarrow> firestore \<Rightarrow> world \<Rightarrow> bool \<times> world" where
  "save_done message db' w =
     (False, (showMessageBox message ''success'' (w\<lparr>db := db'\<rparr>))\<lparr>onSave_calls := Suc (onSave_calls w)\<rparr>)"

definition save_transaction ::
  "jsstring option \<Rightarrow> jsstring \<Rightarrow> int \<Rightarrow> jsstring \<Rightarrow> txdoc option \<Rightarrow> txn \<Rightarrow> world \<Rightarrow> bool \<times> world" where
  "save_transaction rejection newId now2 customerSupplierName initial transactionData w =
     (case appId w of
        None \<Rightarrow> save_failed referenceError w
      | Some a \<Rightarrow>
          (case initial of
             Some old \<Rightarrow>
               (let w1 = w\<lparr>store_calls := store_calls w @ [UpdateDoc (ascii ''transactions'') (fst old)]\<rparr>
                in case updateDoc_transaction rejection (db w1) (fst old) transactionData of
                     Inr db' \<Rightarrow> save_done (ascii ''Transaction updated successfully!'') db' w1
                   | Inl error \<Rightarrow> save_failed error w1)
           | None \<Rightarrow>
               (let w1 = w\<lparr>store_calls := store_calls w @ [AddDoc (ascii ''transactions'')]\<rparr>
                in case addDoc_transaction rejection newId (db w1)
                          (transactionData\<lparr>createdAt := Some now2\<rparr>) of
                     Inr db' \<Rightarrow>
                       save_done
                         (ascii ''Transaction recorded successfully for '' @ customerSupplierName @ ascii ''!'')
                         db' w1
                   | Inl error \<Rightarrow> save_failed error w1)))"

text \<open>
  The whole handler: the amount is checked first, then the connection. \<open>now1\<close> is the
  clock at \<open>updatedAt: new Date()\<close>, which is part of \<open>transactionData\<close> on both paths.
\<close>

definition transactionForm_handleSubmit ::
  "bool \<Rightarrow> jsstring option \<Rightarrow> jsstring \<Rightarrow> int \<Rightarrow> int \<Rightarrow> jsstring \<Rightarrow> jsstring \<Rightarrow> transaction_form \<Rightarrow>
   bool \<times> world \<Rightarrow> bool \<times> world" where
  "transactionForm_handleSubmit ready rejection newId now1 now2 cid customerSupplierName form lw =
     (let loading = fst lw; w = snd lw;
          invalid = (loading, showMessageBox (ascii ''Please enter a valid positive amount.'') ''error'' w)
      in
      case parseFloat_rawAmount (rawAmount form) of
        None \<Rightarrow> invalid
      | Some parsedAmount \<Rightarrow>
          (if parsedAmount \<le> 0 then invalid
           else if \<not> ready then
             (loading, showMessageBox (ascii ''Firebase not initialized. Please try again.'') ''error'' w)
           else
             save_transaction rejection newId now2 customerSupplierName (initialTransaction form)
               \<lparr>customerSupplierId = cid, amount = Finite False parsedAmount, txType = formType form,
                description = trim (formDescription form), date = Some (formDate form),
                updatedAt = Some now1, createdAt = None\<rparr>
               w))"

section \<open>\<open>getFormattedMobileForWhatsApp\<close>\<close>

text \<open>
  \<^verbatim>\<open>
  if (!mobile) return '';
  const cleanedMobile = mobile.replace(/\D/g, '');
  if (cleanedMobile.startsWith('91') && cleanedMobile.length >= 10) return `+${cleanedMobile}`;
  else return `+91${cleanedMobile}`;
  \<close>
  \<open>\D\<close> is every code unit that is not one of \<open>0\<close> to \<open>9\<close>.
\<close>

definition isDigit :: "nat \<Rightarrow> bool" where
  "isDigit c = (0x30 \<le> c \<and> c \<le> 0x39)"

definition startsWith :: "jsstring \<Rightarrow> jsstring \<Rightarrow> bool" where
  "startsWith s p = (take (length p) s = p)"

definition getFormattedMobileForWhatsApp :: "jsstring \<Rightarrow> jsstring" where
  "getFormattedMobileForWhatsApp mobileNumber =
     (if mobileNumber = [] then []
      else
        let cleanedMobile = filter isDigit mobileNumber in
        if startsWith cleanedMobile (ascii ''91'') \<and> 10 \<le> length cleanedMobile
        then ascii ''+'' @ cleanedMobile
        else ascii ''+91'' @ cleanedMobile)"

section \<open>\<open>formatRupee\<close>\<close>

text \<open>
  \<^verbatim>\<open>
  const num = parseFloat(amount);
  if (isNaN(num)) return amount;
  return new Intl.NumberFormat('en-IN', { style: 'currency', currency: 'INR',
    minimumFractionDigits: 2, maximumFractionDigits: 2 }).format(num);
  \<close>
  The argument is any value: a number, a string or \<open>undefined\<close>.
\<close>

datatype jsval = JNumber jsnumber | JString jsstring | JUndefined

definition number :: "rat \<Rightarrow> jsval" where
  "number q = JNumber (num q)"

text \<open>
  \<open>parseFloat\<close> of a string skips leading white space and reads the longest prefix that
  is a decimal literal: an optional sign, then \<open>Infinity\<close>, or digits with an optional
  fraction and an optional exponent; without such a prefix the result is \<open>NaN\<close>. What
  follows the prefix is ignored. The value of the literal, the digits \<open>n\<close> times
  \<open>10 ^ e\<close>, is rounded to a double (\<open>decimalToDouble\<close>).
\<close>

definition decimalToDouble :: "bool \<Rightarrow> nat \<Rightarrow> int \<Rightarrow> jsnumber" where
  "decimalToDouble negative n e = roundFraction negative (n * 10 ^ nat e) (10 ^ nat (- e))"

definition decimalValue :: "jsstring \<Rightarrow> nat" where
  "decimalValue ds = foldl (\<lambda>acc c. 10 * acc + (c - 0x30)) 0 ds"

definition exponentPart :: "jsstring \<Rightarrow> int" where
  "exponentPart r =
     (case r of
        [] \<Rightarrow> 0
      | c # r1 \<Rightarrow>
          if c = 0x65 \<or> c = 0x45 then
            (let negative = (case r1 of d # _ \<Rightarrow> d = 0x2D | [] \<Rightarrow> False);
                 r2 = (case r1 of d # r' \<Rightarrow> if d = 0x2D \<or> d = 0x2B then r' else r1 | [] \<Rightarrow> []);
                 ds = takeWhile isDigit r2
             in if ds = [] then 0
                else if negative then - int (decimalValue ds) else int (decimalValue ds))
          else 0)"

definition scale10 :: "rat \<Rightarrow> int \<Rightarrow> rat" where
  "scale10 m e = (if 0 \<le> e then m * 10 ^ nat e else m / 10 ^ nat (- e))"

definition parseFloat_string :: "jsstring \<Rightarrow> jsnumber" where
  "parseFloat_string inputString =
     (let trimmedString = dropWhile isWhiteSpace inputString;
          negative = (case trimmedString of c # _ \<Rightarrow> c = 0x2D | [] \<Rightarrow> False);
          u = (case trimmedString of
                 c # r \<Rightarrow> if c = 0x2D \<or> c = 0x2B then r else trimmedString
               | [] \<Rightarrow> [])
      in if startsWith u (ascii ''Infinity'') then Infinity negative
         else
           let intDigits = takeWhile isDigit u;
               r1 = dropWhile isDigit u;
               hasDot = (case r1 of c # _ \<Rightarrow> c = 0x2E | [] \<Rightarrow> False);
               fracDigits = (if hasDot then takeWhile isDigit (tl r1) else []);
               r2 = (if hasDot then dropWhile isDigit (tl r1) else r1)
           in if intDigits = [] \<and> fracDigits = [] then NaN
              else decimalToDouble negative (decimalValue (intDigits @ fracDigits))
                     (exponentPart r2 - int (length fracDigits)))"

text \<open>
  \<open>parseFloat\<close> converts its argument to a string first: a number reads back as itself
  (negative zero prints as \<open>0\<close>), \<open>undefined\<close> has no numeric prefix.
\<close>

definition parseFloat :: "jsval \<Rightarrow> jsnumber" where
  "parseFloat v =
     (case v of
        JNumber (Finite negative m) \<Rightarrow> Finite (negative \<and> m \<noteq> 0) m
      | JNumber n \<Rightarrow> n
      | JString s \<Rightarrow> parseFloat_string s
      | JUndefined \<Rightarrow> NaN)"

text \<open>
  \<open>Intl.NumberFormat\<close> prints a double from its shortest decimal representation: the
  decimal with the fewest significant digits that rounds back to the double, and of
  those the one nearest to it. \<open>shortestFrom\<close> looks for it among the two multiples
  \<open>n * 10 ^ j\<close> and \<open>(n + 1) * 10 ^ j\<close> next to the magnitude, for \<open>j\<close> from above the
  first digit downwards (17 significant digits always suffice; the smallest double needs
  \<open>j = -324\<close>).
\<close>

fun decimalDigits :: "nat \<Rightarrow> jsstring" where
  "decimalDigits n = (if n < 10 then [0x30 + n] else decimalDigits (n div 10) @ [0x30 + n mod 10])"

declare decimalDigits.simps [simp del]

definition roundTrips :: "rat \<Rightarrow> nat \<Rightarrow> int \<Rightarrow> bool" where
  "roundTrips m n j = (0 < n \<and> decimalToDouble False n j = Finite False m)"

fun shortestFrom :: "nat \<Rightarrow> int \<Rightarrow> rat \<Rightarrow> rat" where
  "shortestFrom 0 j m = m"
| "shortestFrom (Suc fuel) j m =
     (let n = nat \<lfloor>m / scale10 1 j\<rfloor>; lo = scale10 (of_nat n) j; hi = scale10 (of_nat (Suc n)) j in
      if roundTrips m n j \<and> roundTrips m (Suc n) j then (if hi - m < m - lo then hi else lo)
      else if roundTrips m n j then lo
      else if roundTrips m (Suc n) j then hi
      else shortestFrom fuel (j - 1) m)"

definition shortestDecimal :: "rat \<Rightarrow> rat" where
  "shortestDecimal m = shortestFrom 400 (int (length (decimalDigits (nat \<lfloor>m\<rfloor>)))) m"

text \<open>
  With two fraction digits the shortest decimal is rounded to hundredths, halves away
  from zero; the integer digits are grouped the Indian way (the last three, then pairs);
  a negative number, negative zero included, gets a leading minus sign; the rupee sign
  is the code unit \<open>0x20B9\<close>, the infinity sign \<open>0x221E\<close>.
\<close>

definition roundedHundredths :: "rat \<Rightarrow> nat" where
  "roundedHundredths m = (if m = 0 then 0 else nat \<lfloor>shortestDecimal m * 100 + 1 / 2\<rfloor>)"

fun groupPairs :: "jsstring \<Rightarrow> jsstring" where
  "groupPairs (a # b # c # r) = a # b # 0x2C # groupPairs (c # r)"
| "groupPairs r = r"

definition groupIndian :: "jsstring \<Rightarrow> jsstring" where
  "groupIndian ds =
     rev (case rev ds of
            a # b # c # d # r \<Rightarrow> a # b # c # 0x2C # groupPairs (d # r)
          | r \<Rightarrow> r)"

definition format_INR :: "bool \<Rightarrow> rat \<Rightarrow> jsstring" where
  "format_INR negative m =
     (let n = roundedHundredths m in
      (if negative then [0x2D] else []) @ [0x20B9] @ groupIndian (decimalDigits (n div 100))
        @ [0x2E, 0x30 + (n mod 100) div 10, 0x30 + n mod 10])"

definition formatRupee :: "jsval \<Rightarrow> jsval" where
  "formatRupee amountArg =
     (case parseFloat amountArg of
        NaN \<Rightarrow> amountArg
      | Finite negative m \<Rightarrow> JString (format_INR negative m)
      | Infinity negative \<Rightarrow> JString ((if negative then [0x2D] else []) @ [0x20B9, 0x221E]))"

text \<open>
  The shape of a grouped integer part, read from its right end: three digits, then
  pairs of digits, each group preceded by a comma; a short number is its digits.
\<close>

fun pairsGrouped :: "jsstring \<Rightarrow> bool" where
  "pairsGrouped (a # b # c # r) = (isDigit a \<and> isDigit b \<and> c = 0x2C \<and> pairsGrouped r)"
| "pairsGrouped [a, b] = (isDigit a \<and> isDigit b)"
| "pairsGrouped [a] = isDigit a"
| "pairsGrouped [] = False"

definition indianGrouped :: "jsstring \<Rightarrow> bool" where
  "indianGrouped g =
     (case rev g of
        a # b # c # d # r \<Rightarrow> isDigit a \<and> isDigit b \<and> isDigit c \<and> d = 0x2C \<and> pairsGrouped r
      | r \<Rightarrow> r \<noteq> [] \<and> list_all isDigit r)"

section \<open>What the listener publishes; the words of the specification\<close>

text \<open>
  The list the listener puts on screen when it receives the snapshot of the query on the
  current store.
\<close>

definition published :: "jsstring option \<Rightarrow> jsstring \<Rightarrow> customer_detail \<times> world \<Rightarrow> txdoc list" where
  "published rejection cid sw =
     st_transactions (fst (onSnapshot_next rejection cid (query_transactions (db (snd sw)) cid) sw))"

text \<open>
  The phone rule as the specification words it, with no case for an empty input: strip
  every character that is not a digit; if the digits begin with \<open>91\<close> and are at least
  ten, prefix \<open>+\<close>, otherwise prefix \<open>+91\<close>.
\<close>

definition spec_phone_normalization :: "jsstring \<Rightarrow> jsstring" where
  "spec_phone_normalization s =
     (let digits = filter (\<lambda>c. c \<in> {0x30..0x39}) s in
      if take 2 digits = [0x39, 0x31] \<and> 10 \<le> length digits then 0x2B # digits
      else [0x2B, 0x39, 0x31] @ digits)"

text \<open>
  A ledger whose credits and debits are whole numbers of at most \<open>2 ^ 53\<close> in total:
  every sum of such amounts is a double.
\<close>

definition wholeLedger :: "txdoc list \<Rightarrow> bool" where
  "wholeLedger T =
     (list_all wholeAmount (amounts (filter is_credit T))
      \<and> list_all wholeAmount (amounts (filter is_debit T))
      \<and> total (amounts (filter is_credit T)) + total (amounts (filter is_debit T)) \<le> 2 ^ 53)"

section \<open>Example data\<close>

text \<open>
  The example world is a page that binds \<open>appId\<close>; \<open>without_appId\<close> is the same world
  as the source alone gives it. The three doubles are the ones written \<open>0.1\<close>, \<open>0.2\<close>
  and \<open>0.3\<close>.
\<close>

definition example_tx :: "string \<Rightarrow> string \<Rightarrow> rat \<Rightarrow> string \<Rightarrow> int \<Rightarrow> txdoc" where
  "example_tx i cid a direction d =
     (ascii i, \<lparr>customerSupplierId = ascii cid, amount = num a, txType = ascii direction,
                description = [], date = Some d, updatedAt = None, createdAt = None\<rparr>)"

definition example_ledger :: "txdoc list" where
  "example_ledger =
     [example_tx ''t1'' ''c1'' 500 ''credit'' 1000,
      example_tx ''t2'' ''c2'' 50 ''credit'' 3000,
      example_tx ''t3'' ''c1'' 200 ''debit'' 2000]"

definition example_world :: "txdoc list \<Rightarrow> world" where
  "example_world ts =
     \<lparr>db = \<lparr>customers_suppliers =
              [(ascii ''c1'', \<lparr>name = ascii ''Asha'', mobile = ascii ''9876543210'', address = [],
                 ctype = ascii ''customer'', balance = Finite False 0, contactCreatedAt = 1\<rparr>)],
            transactions = ts\<rparr>,
      appId = Some (ascii ''default-app-id''),
      store_calls = [], console_error = [], messageBox = [], onSave_calls = 0\<rparr>"

definition without_appId :: "world \<Rightarrow> world" where
  "without_appId w = w\<lparr>appId := None\<rparr>"

definition example_state :: customer_detail where
  "example_state = \<lparr>st_transactions = [], st_loadingTransactions = True, st_balance = Finite False 7\<rparr>"

definition example_form :: "rat \<Rightarrow> transaction_form" where
  "example_form a =
     \<lparr>rawAmount = Amount a, formType = ascii ''credit'', formDescription = [], formDate = 900,
      initialTransaction = None\<rparr>"

definition double_0_1 :: rat where
  "double_0_1 = 3602879701896397 / 2 ^ 55"

definition double_0_2 :: rat where
  "double_0_2 = 3602879701896397 / 2 ^ 54"

definition double_0_3 :: rat where
  "double_0_3 = 5404319552844595 / 2 ^ 54"

definition tenths_ledger :: "txdoc list" where
  "tenths_ledger =
     [example_tx ''t1'' ''c1'' double_0_1 ''credit'' 3000,
      example_tx ''t2'' ''c1'' double_0_2 ''credit'' 2000]"

definition tenths_debit_second :: "txdoc list" where
  "tenths_debit_second =
     [example_tx ''t1'' ''c1'' double_0_1 ''credit'' 3000,
      example_tx ''t3'' ''c1'' double_0_3 ''debit'' 2000,
      example_tx ''t2'' ''c1'' double_0_2 ''credit'' 1000]"

definition tenths_debit_last :: "txdoc list" where
  "tenths_debit_last =
     [example_tx ''t1'' ''c1'' double_0_1 ''credit'' 3000,
      example_tx ''t2'' ''c1'' double_0_2 ''credit'' 2000,
      example_tx ''t3'' ''c1'' double_0_3 ''debit'' 1000]"

section \<open>Lemmas\<close>

subsection \<open>Rounding to a double\<close>

lemma bitLength_0: "bitLength 0 = 0"
  by (simp add: bitLength.simps)

lemma bitLength_pos: "0 < n \<Longrightarrow> bitLength n = Suc (bitLength (n div 2))"
  by (subst bitLength.simps) simp

lemma bitLength_upper: "n < 2 ^ bitLength n"
proof (induction n rule: bitLength.induct)
  case (1 n)
  show ?case
  proof (cases "n = 0")
    case True
    then show ?thesis by (simp add: bitLength_0)
  next
    case False
    with "1.IH" have "n div 2 < 2 ^ bitLength (n div 2)" by simp
    then have "n < 2 * 2 ^ bitLength (n div 2)" by linarith
    with False show ?thesis by (simp add: bitLength_pos)
  qed
qed

lemma bitLength_lower: "0 < n \<Longrightarrow> 2 ^ (bitLength n - 1) \<le> n"
proof (induction n rule: bitLength.induct)
  case (1 n)
  show ?case
  proof (cases "n div 2 = 0")
    case True
    with "1.prems" have "n = 1" by linarith
    then show ?thesis by (simp add: bitLength_pos bitLength_0)
  next
    case False
    then have h: "0 < n div 2" by simp
    with "1.IH" "1.prems" have "2 ^ (bitLength (n div 2) - 1) \<le> n div 2" by simp
    then have "2 * 2 ^ (bitLength (n div 2) - 1) \<le> n" by linarith
    moreover have "bitLength (n div 2) = Suc (bitLength (n div 2) - 1)"
      using h by (simp add: bitLength_pos)
    ultimately have "2 ^ bitLength (n div 2) \<le> n"
      by (metis power_Suc)
    with "1.prems" show ?thesis by (simp add: bitLength_pos)
  qed
qed

lemma bitLength_le: "n < 2 ^ m \<Longrightarrow> bitLength n \<le> m"
proof (cases "n = 0")
  case True
  then show ?thesis by (simp add: bitLength_0)
next
  case False
  assume "n < 2 ^ m"
  from False have "2 ^ (bitLength n - 1) \<le> n"
    using bitLength_lower [of n] by simp
  from this \<open>n < 2 ^ m\<close> have "(2::nat) ^ (bitLength n - 1) < 2 ^ m"
    by (rule le_less_trans)
  then have "bitLength n - 1 < m"
    by simp
  then show ?thesis by simp
qed

lemma bitLength_eq:
  assumes "2 ^ b \<le> n" and "n < 2 ^ Suc b"
  shows "bitLength n = Suc b"
proof -
  from assms(2) have "bitLength n \<le> Suc b"
    by (rule bitLength_le)
  moreover from assms(1) bitLength_upper [of n] have "(2::nat) ^ b < 2 ^ bitLength n"
    by (rule le_less_trans)
  then have "b < bitLength n" by simp
  ultimately show ?thesis by simp
qed

lemma bitLength_1: "bitLength (Suc 0) = Suc 0"
  by (simp add: bitLength_pos bitLength_0)

lemma roundHalfEven_1: "roundHalfEven a (Suc 0) = a"
  by (simp add: roundHalfEven_def)

lemma roundFraction_whole:
  assumes "0 < k" and "k \<le> 2 ^ 53"
  shows "roundFraction s k (Suc 0) = Finite s (of_nat k)"
proof -
  define b where "b = bitLength k"
  from assms(1) have bpos: "0 < b"
    unfolding b_def by (simp add: bitLength_pos)
  have low: "2 ^ (b - 1) \<le> k"
    unfolding b_def using assms(1) by (rule bitLength_lower)
  from assms(2) have "k < 2 ^ 54" by simp
  then have b54: "b \<le> 54"
    unfolding b_def by (rule bitLength_le)
  have e: "binaryExponent k (Suc 0) = int b - 1"
    using low bpos by (simp add: binaryExponent_def bitLength_1 b_def [symmetric] nat_diff_distrib)
  show ?thesis
  proof (cases "b = 54")
    case True
    with low assms(2) have k: "k = 2 ^ 53" by simp
    have rh: "roundHalfEven k 2 = 2 ^ 52"
      unfolding k by (simp add: roundHalfEven_def)
    have sc: "scale2 (2 ^ 52) 1 = of_nat k"
      unfolding k by (simp add: scale2_def)
    have e53: "binaryExponent k (Suc 0) = 53"
      using e True by simp
    from assms(1) have "roundFraction s k (Suc 0) = Finite s (scale2 (roundHalfEven k 2) 1)"
      unfolding roundFraction_def e53 by (simp add: rh)
    then show ?thesis
      by (simp only: rh sc)
  next
    case False
    with b54 have b53: "b \<le> 53" by simp
    then have n1: "nat (52 - (int b - 1)) = 53 - b" and n2: "nat (int b - 1 - 52) = 0"
      and n3: "nat (53 - int b) = 53 - b" and n4: "nat (int b - 53) = 0"
      by simp_all
    have "scale2 (k * 2 ^ (53 - b)) (int b - 1 - 52) = of_nat k"
      using b53 by (auto simp: scale2_def nat_diff_distrib)
    with assms(1) b53 bpos show ?thesis
      by (simp add: roundFraction_def e n1 n2 n3 n4 roundHalfEven_1 Let_def)
  qed
qed

lemma roundToDouble_whole:
  assumes "0 < k" and "k \<le> 2 ^ 53"
  shows "roundToDouble s (of_nat k) = Finite s (of_nat k)"
proof -
  have "quotient_of (of_nat k :: rat) = (int k, 1)"
    using quotient_of_int [of "int k"] by simp
  then show ?thesis
    by (simp add: roundToDouble_def roundFraction_whole [OF assms])
qed

lemma roundToDouble_dyadic:
  assumes "odd p"
  shows "roundToDouble s (of_nat p / 2 ^ k) = roundFraction s p (2 ^ k)"
proof -
  have c: "coprime (int p) (2 ^ k)"
    using assms by simp
  have "(of_nat p / 2 ^ k :: rat) = Fract (int p) (2 ^ k)"
    by (simp add: Fract_of_int_quotient)
  moreover have "quotient_of (Fract (int p) (2 ^ k)) = (int p, 2 ^ k)"
    using c by (simp add: quotient_of_Fract Rat.normalize_stable)
  ultimately have "quotient_of (of_nat p / 2 ^ k :: rat) = (int p, 2 ^ k)"
    by simp
  then show ?thesis
    by (simp add: roundToDouble_def nat_power_eq)
qed

lemma signedValue_num: "signedValue (q < 0) \<bar>q\<bar> = q"
  by (simp add: signedValue_def)

lemma toRat_num: "toRat (num q) = q"
  by (simp add: toRat_def num_def signedValue_def)

lemma roundToDouble_Ints:
  assumes "v \<in> \<int>" and "v \<noteq> 0" and "\<bar>v\<bar> \<le> 2 ^ 53"
  shows "roundToDouble (v < 0) \<bar>v\<bar> = num v"
proof -
  from assms(1) obtain z where z: "v = of_int z"
    by (auto elim: Ints_cases)
  define k where "k = nat \<bar>z\<bar>"
  have k: "\<bar>v\<bar> = of_nat k"
    unfolding k_def z by simp
  from assms(2) have "0 < k"
    unfolding k_def z by simp
  moreover from assms(3) have "(of_nat k :: rat) \<le> of_nat (2 ^ 53)"
    unfolding k by simp
  then have "k \<le> 2 ^ 53"
    by (simp only: of_nat_le_iff)
  ultimately have "roundToDouble (v < 0) (of_nat k) = Finite (v < 0) (of_nat k)"
    by (rule roundToDouble_whole)
  then show ?thesis
    by (simp add: num_def k)
qed

lemma jsAdd_whole:
  assumes "x \<in> \<int>" and "m \<in> \<int>" and "\<bar>x + m\<bar> \<le> 2 ^ 53"
  shows "jsAdd (num x) (Finite False m) = num (x + m)"
proof (cases "x + m = 0")
  case True
  then show ?thesis
    by (simp add: num_def signedValue_def)
next
  case False
  from assms(1,2) have "x + m \<in> \<int>" by simp
  from roundToDouble_Ints [OF this False assms(3)] False show ?thesis
    by (simp add: num_def signedValue_def Let_def)
qed

lemma jsSub_whole:
  assumes "x \<in> \<int>" and "m \<in> \<int>" and "0 \<le> m" and "\<bar>x - m\<bar> \<le> 2 ^ 53"
  shows "jsSub (num x) (Finite False m) = num (x - m)"
proof (cases "x - m = 0")
  case True
  with assms(3) show ?thesis
    by (simp add: jsSub_def num_def signedValue_def)
next
  case False
  from assms(1,2) have "x - m \<in> \<int>" by simp
  from roundToDouble_Ints [OF this False assms(4)] False show ?thesis
    by (simp add: jsSub_def num_def signedValue_def Let_def)
qed

lemma wholeAmount_cases:
  assumes "wholeAmount a"
  obtains m where "a = Finite False m" and "0 \<le> m" and "m \<in> \<int>"
proof (cases a)
  case (Finite s m)
  with assms have "\<not> s" "0 \<le> m" "of_int \<lfloor>m\<rfloor> = m"
    by (simp_all add: wholeAmount_def)
  moreover from this(3) have "m \<in> \<int>"
    by (metis Ints_of_int)
  ultimately show ?thesis
    using Finite that by simp
next
  case (Infinity s)
  with assms show ?thesis by (simp add: wholeAmount_def)
next
  case NaN
  with assms show ?thesis by (simp add: wholeAmount_def)
qed

lemma total_Cons: "total (a # ns) = toRat a + total ns"
  by (simp add: total_def)

lemma total_Nil: "total [] = 0"
  by (simp add: total_def)

lemma total_nonneg: "list_all wholeAmount ns \<Longrightarrow> 0 \<le> total ns"
proof (induction ns)
  case Nil
  show ?case by (simp add: total_def)
next
  case (Cons a ns)
  from Cons.prems have "wholeAmount a" by simp
  then obtain m where "a = Finite False m" "0 \<le> m"
    by (rule wholeAmount_cases)
  with Cons show ?case
    by (simp add: total_Cons toRat_def signedValue_def)
qed

lemma total_Ints: "list_all wholeAmount ns \<Longrightarrow> total ns \<in> \<int>"
proof (induction ns)
  case Nil
  show ?case by (simp add: total_def)
next
  case (Cons a ns)
  from Cons.prems have "wholeAmount a" by simp
  then obtain m where "a = Finite False m" "m \<in> \<int>"
    by (rule wholeAmount_cases)
  with Cons show ?case
    by (simp add: total_Cons toRat_def signedValue_def)
qed

lemma credit_debit_distinct: "ascii ''credit'' \<noteq> ascii ''debit''"
  by (simp add: ascii_def)

lemma foldl_balance_step_whole:
  assumes "list_all wholeAmount (amounts (filter is_credit T))"
    and "list_all wholeAmount (amounts (filter is_debit T))"
    and "x \<in> \<int>"
    and "\<bar>x\<bar> + total (amounts (filter is_credit T)) + total (amounts (filter is_debit T)) \<le> 2 ^ 53"
  shows "foldl balance_step (num x) T =
    num (x + total (amounts (filter is_credit T)) - total (amounts (filter is_debit T)))"
  using assms
proof (induction T arbitrary: x)
  case Nil
  show ?case by (simp add: amounts_def total_def)
next
  case (Cons d T)
  obtain i t where d: "d = (i, t)" by (cases d)
  let ?c = "total (amounts (filter is_credit T))"
  let ?d = "total (amounts (filter is_debit T))"
  have wc: "list_all wholeAmount (amounts (filter is_credit T))"
    and wd: "list_all wholeAmount (amounts (filter is_debit T))"
    using Cons.prems(1,2) by (simp_all add: amounts_def split: if_splits)
  have c0: "0 \<le> ?c" and d0: "0 \<le> ?d"
    using wc wd by (simp_all add: total_nonneg)
  consider (credit) "txType t = ascii ''credit''" | (debit) "txType t = ascii ''debit''"
    | (other) "txType t \<noteq> ascii ''credit''" "txType t \<noteq> ascii ''debit''"
    by blast
  then show ?case
  proof cases
    case credit
    then have k: "is_credit d" "\<not> is_debit d"
      using credit_debit_distinct by (simp_all add: is_credit_def is_debit_def d)
    with Cons.prems(1) have "wholeAmount (amount t)"
      by (simp add: amounts_def d)
    then obtain m where m: "amount t = Finite False m" "0 \<le> m" "m \<in> \<int>"
      by (rule wholeAmount_cases)
    have tc: "total (amounts (filter is_credit (d # T))) = m + ?c"
      and td: "total (amounts (filter is_debit (d # T))) = ?d"
      using k m by (simp_all add: amounts_def total_Cons toRat_def signedValue_def d)
    from Cons.prems(4) have b: "\<bar>x\<bar> + m + ?c + ?d \<le> 2 ^ 53"
      unfolding tc td by simp
    with m(2) c0 d0 have "\<bar>x + m\<bar> \<le> 2 ^ 53" by linarith
    with Cons.prems(3) m(3) have s: "jsAdd (num x) (Finite False m) = num (x + m)"
      by (intro jsAdd_whole)
    have "foldl balance_step (num (x + m)) T = num (x + m + ?c - ?d)"
    proof (rule Cons.IH [OF wc wd])
      from Cons.prems(3) m(3) show "x + m \<in> \<int>" by simp
      from b m(2) show "\<bar>x + m\<bar> + ?c + ?d \<le> 2 ^ 53" by linarith
    qed
    with credit s m(1) show ?thesis
      unfolding tc td by (simp add: d add.assoc)
  next
    case debit
    then have k: "\<not> is_credit d" "is_debit d"
      using credit_debit_distinct by (simp_all add: is_credit_def is_debit_def d)
    with Cons.prems(2) have "wholeAmount (amount t)"
      by (simp add: amounts_def d)
    then obtain m where m: "amount t = Finite False m" "0 \<le> m" "m \<in> \<int>"
      by (rule wholeAmount_cases)
    have tc: "total (amounts (filter is_credit (d # T))) = ?c"
      and td: "total (amounts (filter is_debit (d # T))) = m + ?d"
      using k m by (simp_all add: amounts_def total_Cons toRat_def signedValue_def d)
    from Cons.prems(4) have b: "\<bar>x\<bar> + m + ?c + ?d \<le> 2 ^ 53"
      unfolding tc td by simp
    with m(2) c0 d0 have "\<bar>x - m\<bar> \<le> 2 ^ 53" by linarith
    with Cons.prems(3) m(2,3) have s: "jsSub (num x) (Finite False m) = num (x - m)"
      by (intro jsSub_whole)
    have "foldl balance_step (num (x - m)) T = num (x - m + ?c - ?d)"
    proof (rule Cons.IH [OF wc wd])
      from Cons.prems(3) m(3) show "x - m \<in> \<int>" by simp
      from b m(2) show "\<bar>x - m\<bar> + ?c + ?d \<le> 2 ^ 53" by linarith
    qed
    moreover have "x - m + ?c - ?d = x + ?c - (m + ?d)" by simp
    ultimately show ?thesis
      using debit credit_debit_distinct s m(1) unfolding tc td by (simp add: d)
  next
    case other
    then have k: "\<not> is_credit d" "\<not> is_debit d"
      by (simp_all add: is_credit_def is_debit_def d)
    have "foldl balance_step (num x) T = num (x + ?c - ?d)"
      using Cons.prems(3,4) k by (intro Cons.IH [OF wc wd]) simp_all
    with other k show ?thesis
      by (simp add: d)
  qed
qed

lemma recalculate_balance_whole:
  assumes "wholeLedger T"
  shows "recalculate_balance T =
    num (total (amounts (filter is_credit T)) - total (amounts (filter is_debit T)))"
proof -
  have "foldl balance_step (num 0) T =
      num (0 + total (amounts (filter is_credit T)) - total (amounts (filter is_debit T)))"
    using assms by (intro foldl_balance_step_whole) (simp_all add: wholeLedger_def)
  then show ?thesis
    by (simp add: recalculate_balance_def num_def)
qed

lemma bitLength_numeral: "bitLength (numeral k) = Suc (bitLength (numeral k div 2))"
  by (rule bitLength_pos) simp

lemma bitLength_one: "bitLength 1 = 1"
  by (simp add: bitLength_1)

lemma bitLength_2: "bitLength (Suc (Suc 0)) = 2"
  by (simp add: bitLength_pos bitLength_1)

lemmas roundFraction_eval = roundFraction_def binaryExponent_def roundHalfEven_def scale2_def Let_def
  bitLength_numeral bitLength_one bitLength_2 bitLength_1 bitLength_0

lemma round_0_1: "roundToDouble s double_0_1 = Finite s double_0_1"
  unfolding double_0_1_def
  using roundToDouble_dyadic [of 3602879701896397 s 55]
  by (simp add: roundFraction_eval)

lemma round_0_3_sum:
  "roundToDouble s (10808639105689191 / 2 ^ 55) = Finite s (1351079888211149 / 2 ^ 52)"
  using roundToDouble_dyadic [of 10808639105689191 s 55]
  by (simp add: roundFraction_eval)

lemma round_0_2_diff:
  "roundToDouble s (7205759403792793 / 2 ^ 55) = Finite s (7205759403792793 / 2 ^ 55)"
  using roundToDouble_dyadic [of 7205759403792793 s 55]
  by (simp add: roundFraction_eval)

lemma round_ulp_55: "roundToDouble s (1 / 2 ^ 55) = Finite s (1 / 2 ^ 55)"
  using roundToDouble_dyadic [of 1 s 55]
  by (simp add: roundFraction_eval)

lemma round_ulp_54: "roundToDouble s (1 / 2 ^ 54) = Finite s (1 / 2 ^ 54)"
  using roundToDouble_dyadic [of 1 s 54]
  by (simp add: roundFraction_eval)

subsection \<open>Sorting and balances\<close>

lemma mset_sort_insert: "mset (sort_insert cmp x xs) = add_mset x (mset xs)"
  by (induction xs) simp_all

lemma mset_array_sort: "mset (array_sort cmp xs) = mset xs"
  by (induction xs) (simp_all add: array_sort_def mset_sort_insert)

lemma set_sort_insert: "set (sort_insert cmp x xs) = insert x (set xs)"
  by (induction xs) auto

lemma sorted_sort_insert:
  "sorted_wrt (\<lambda>a b. dateMillis b \<le> dateMillis a) xs \<Longrightarrow>
   sorted_wrt (\<lambda>a b. dateMillis b \<le> dateMillis a) (sort_insert compareFn x xs)"
  by (induction xs) (auto simp: set_sort_insert compareFn_def)

lemma sorted_array_sort:
  "sorted_wrt (\<lambda>a b. dateMillis b \<le> dateMillis a) (array_sort compareFn xs)"
  by (induction xs) (simp_all add: array_sort_def sorted_sort_insert)

lemma array_sort_Nil: "array_sort cmp [] = []"
  by (simp add: array_sort_def)

text \<open>The totals of the credits and of the debits do not depend on the order of the list.\<close>

lemma total_amounts_filter_mset:
  assumes "mset xs = mset ys"
  shows "total (amounts (filter P xs)) = total (amounts (filter P ys))"
proof -
  have "total (amounts (filter P zs)) =
      sum_mset (image_mset (\<lambda>d. toRat (amount (snd d))) (filter_mset P (mset zs)))" for zs
    by (simp add: total_def amounts_def comp_def flip: sum_mset_sum_list)
  with assms show ?thesis by simp
qed

lemma list_all_amounts_filter:
  "list_all Q (amounts (filter P xs)) = (\<forall>d\<in>set xs. P d \<longrightarrow> Q (amount (snd d)))"
  by (auto simp: amounts_def list_all_iff)

lemma wholeLedger_mset:
  assumes "mset xs = mset ys"
  shows "wholeLedger xs = wholeLedger ys"
proof -
  from assms have "set xs = set ys"
    by (rule mset_eq_setD)
  then show ?thesis
    unfolding wholeLedger_def list_all_amounts_filter
      total_amounts_filter_mset [OF assms, of is_credit]
      total_amounts_filter_mset [OF assms, of is_debit]
    by simp
qed

lemma recalculate_balance_sorted_whole:
  assumes "wholeLedger T"
  shows "recalculate_balance (array_sort cmp T) =
    num (total (amounts (filter is_credit T)) - total (amounts (filter is_debit T)))"
proof -
  have m: "mset (array_sort cmp T) = mset T"
    by (rule mset_array_sort)
  from assms have "wholeLedger (array_sort cmp T)"
    by (simp add: wholeLedger_mset [OF m])
  then show ?thesis
    by (simp add: recalculate_balance_whole total_amounts_filter_mset [OF m])
qed

lemma total_filter_update_leave:
  assumes "i < length T" and "P (T ! i)" and "\<not> P d'"
  shows "total (amounts (filter P (T[i := d']))) =
    total (amounts (filter P T)) - toRat (amount (snd (T ! i)))"
  using assms(1,2)
proof (induction T arbitrary: i)
  case Nil
  then show ?case by simp
next
  case (Cons d T)
  show ?case
  proof (cases i)
    case 0
    with Cons.prems assms(3) show ?thesis
      by (simp add: amounts_def total_Cons)
  next
    case (Suc j)
    with Cons.prems have "total (amounts (filter P (T[j := d']))) =
        total (amounts (filter P T)) - toRat (amount (snd (T ! j)))"
      by (intro Cons.IH) simp_all
    with Suc show ?thesis
      by (simp add: amounts_def total_Cons)
  qed
qed

lemma total_filter_update_enter:
  assumes "i < length T" and "\<not> P (T ! i)" and "P d'"
  shows "total (amounts (filter P (T[i := d']))) =
    total (amounts (filter P T)) + toRat (amount (snd d'))"
  using assms(1,2)
proof (induction T arbitrary: i)
  case Nil
  then show ?case by simp
next
  case (Cons d T)
  show ?case
  proof (cases i)
    case 0
    with Cons.prems assms(3) show ?thesis
      by (simp add: amounts_def total_Cons)
  next
    case (Suc j)
    with Cons.prems have "total (amounts (filter P (T[j := d']))) =
        total (amounts (filter P T)) + toRat (amount (snd d'))"
      by (intro Cons.IH) simp_all
    with Suc show ?thesis
      by (simp add: amounts_def total_Cons)
  qed
qed

lemma credit_not_debit: "is_credit d \<Longrightarrow> \<not> is_debit d"
  using credit_debit_distinct by (simp add: is_credit_def is_debit_def)

lemma balance_step_cases:
  "balance_step b d =
     (if is_credit d then jsAdd b (amount (snd d))
      else if is_debit d then jsSub b (amount (snd d)) else b)"
  by (cases d) (simp add: is_credit_def is_debit_def)

text \<open>Turning a credit of a whole ledger into a debit of the same amount.\<close>

lemma credit_to_debit_whole:
  assumes "i < length T" and "is_credit (T ! i)" and "amount (snd (T ! i)) = Finite False a"
    and "is_debit d'" and "amount (snd d') = Finite False a" and "wholeLedger T"
  shows "wholeLedger (T[i := d'])"
    and "total (amounts (filter is_credit (T[i := d']))) - total (amounts (filter is_debit (T[i := d']))) =
      total (amounts (filter is_credit T)) - total (amounts (filter is_debit T)) - 2 * a"
proof -
  have nd: "\<not> is_debit (T ! i)" and nc: "\<not> is_credit d'"
    using assms(2,4) credit_not_debit by blast+
  have a: "toRat (amount (snd (T ! i))) = a" "toRat (amount (snd d')) = a"
    by (simp_all add: assms(3,5) toRat_def signedValue_def)
  have c: "total (amounts (filter is_credit (T[i := d']))) = total (amounts (filter is_credit T)) - a"
    using total_filter_update_leave [OF assms(1,2) nc] a by simp
  have d: "total (amounts (filter is_debit (T[i := d']))) = total (amounts (filter is_debit T)) + a"
    using total_filter_update_enter [OF assms(1) nd assms(4)] a by simp
  from c d show "total (amounts (filter is_credit (T[i := d']))) - total (amounts (filter is_debit (T[i := d']))) =
      total (amounts (filter is_credit T)) - total (amounts (filter is_debit T)) - 2 * a"
    by simp
  have s: "set (T[i := d']) \<subseteq> insert d' (set T)"
    by (rule set_update_subset_insert)
  from assms(1) have "T ! i \<in> set T" by simp
  with assms(2,3,6) have w: "wholeAmount (Finite False a)"
    unfolding wholeLedger_def list_all_amounts_filter by metis
  have "\<forall>x\<in>set (T[i := d']). is_credit x \<longrightarrow> wholeAmount (amount (snd x))"
    using s nc assms(6) unfolding wholeLedger_def list_all_amounts_filter by blast
  moreover have "\<forall>x\<in>set (T[i := d']). is_debit x \<longrightarrow> wholeAmount (amount (snd x))"
    using s w assms(5,6) unfolding wholeLedger_def list_all_amounts_filter by auto
  moreover have "total (amounts (filter is_credit (T[i := d']))) + total (amounts (filter is_debit (T[i := d']))) \<le> 2 ^ 53"
    using assms(6) unfolding c d wholeLedger_def by simp
  ultimately show "wholeLedger (T[i := d'])"
    unfolding wholeLedger_def list_all_amounts_filter by simp
qed

lemma foldl_balance_step_counted:
  "foldl balance_step b (filter (\<lambda>d. is_credit d \<or> is_debit d) T) = foldl balance_step b T"
proof (induction T arbitrary: b)
  case Nil
  show ?case by simp
next
  case (Cons d T)
  show ?case
  proof (cases "is_credit d \<or> is_debit d")
    case True
    then show ?thesis by (simp add: Cons.IH)
  next
    case False
    then have "balance_step b d = b"
      by (simp add: balance_step_cases)
    with False show ?thesis by (simp add: Cons.IH)
  qed
qed

lemma foldl_balance_step_others:
  "foldl balance_step b (filter (\<lambda>d. \<not> is_credit d \<and> \<not> is_debit d) T) = b"
proof (induction T)
  case Nil
  show ?case by simp
next
  case (Cons d T)
  show ?case
  proof (cases "is_credit d \<or> is_debit d")
    case True
    with Cons.IH show ?thesis by auto
  next
    case False
    then have "balance_step b d = b"
      by (simp add: balance_step_cases)
    with False Cons.IH show ?thesis by simp
  qed
qed

lemma onSnapshot_next_state:
  "fst (onSnapshot_next rejection cid docs (st, w)) =
     st\<lparr>st_transactions := array_sort compareFn docs,
        st_balance := recalculate_balance (array_sort compareFn docs),
        st_loadingTransactions := False\<rparr>"
  by (simp add: onSnapshot_next_def Let_def)

lemma onSnapshot_next_messageBox:
  "messageBox (snd (onSnapshot_next rejection cid docs (st, w))) = messageBox w"
  by (simp add: onSnapshot_next_def Let_def split: sum.splits option.splits)

lemma published_eq:
  "published rejection cid (st, w) = array_sort compareFn (query_transactions (db w) cid)"
  by (simp add: published_def onSnapshot_next_state)

text \<open>The balances of the three ledgers of tenths.\<close>

lemma num_double_0_1: "num double_0_1 = Finite False double_0_1"
  and num_double_0_2: "num double_0_2 = Finite False double_0_2"
  and num_double_0_3: "num double_0_3 = Finite False double_0_3"
  by (simp_all add: num_def double_0_1_def double_0_2_def double_0_3_def)

lemma add_0_1: "jsAdd (Finite False 0) (Finite False double_0_1) = Finite False double_0_1"
  using round_0_1 [of False] by (simp add: signedValue_def double_0_1_def)

lemma sub_0_1: "jsSub (Finite False 0) (Finite False double_0_1) = Finite True double_0_1"
  using round_0_1 [of True] by (simp add: jsSub_def signedValue_def double_0_1_def)

lemma add_0_1_0_2:
  "jsAdd (Finite False double_0_1) (Finite False double_0_2) = Finite False (1351079888211149 / 2 ^ 52)"
  using round_0_3_sum [of False] by (simp add: signedValue_def double_0_1_def double_0_2_def)

lemma recalculate_balance_tenths:
  "recalculate_balance tenths_ledger = Finite False (1351079888211149 / 2 ^ 52)"
  unfolding recalculate_balance_def tenths_ledger_def example_tx_def num_double_0_1 num_double_0_2
  by (simp add: add_0_1 add_0_1_0_2 credit_debit_distinct del: jsAdd.simps)

lemma debit_credit_distinct: "ascii ''debit'' \<noteq> ascii ''credit''"
  by (simp add: ascii_def)

lemma round_0_2_up:
  "roundToDouble s (7205759403792795 / 2 ^ 55) = Finite s (7205759403792795 / 2 ^ 55)"
  using roundToDouble_dyadic [of 7205759403792795 s 55]
  by (simp add: roundFraction_eval)

lemma sub_0_1_0_3:
  "jsSub (Finite False double_0_1) (Finite False double_0_3) = Finite True (7205759403792793 / 2 ^ 55)"
  using round_0_2_diff [of True]
  by (simp add: jsSub_def signedValue_def double_0_1_def double_0_3_def)

lemma add_0_2_diff:
  "jsAdd (Finite True (7205759403792793 / 2 ^ 55)) (Finite False double_0_2) = Finite False (1 / 2 ^ 55)"
  using round_ulp_55 [of False]
  by (simp add: signedValue_def double_0_2_def)

lemma sub_sum_0_3:
  "jsSub (Finite False (1351079888211149 / 2 ^ 52)) (Finite False double_0_3) = Finite False (1 / 2 ^ 54)"
  using round_ulp_54 [of False]
  by (simp add: jsSub_def signedValue_def double_0_3_def)

lemma add_minus_0_1_0_2:
  "jsAdd (Finite True double_0_1) (Finite False double_0_2) = Finite False double_0_1"
  using round_0_1 [of False]
  by (simp add: signedValue_def double_0_1_def double_0_2_def)

lemma sub_sum_0_1:
  "jsSub (Finite False (1351079888211149 / 2 ^ 52)) (Finite False double_0_1) =
     Finite False (7205759403792795 / 2 ^ 55)"
  using round_0_2_up [of False]
  by (simp add: jsSub_def signedValue_def double_0_1_def)

lemma recalculate_balance_debit_second:
  "recalculate_balance tenths_debit_second = Finite False (1 / 2 ^ 55)"
proof -
  have "recalculate_balance tenths_debit_second =
      jsAdd (jsSub (jsAdd (Finite False 0) (Finite False double_0_1)) (Finite False double_0_3))
        (Finite False double_0_2)"
    unfolding recalculate_balance_def tenths_debit_second_def example_tx_def
      num_double_0_1 num_double_0_2 num_double_0_3
    by (simp add: credit_debit_distinct debit_credit_distinct del: jsAdd.simps)
  then show ?thesis
    by (simp only: add_0_1 sub_0_1_0_3 add_0_2_diff)
qed

lemma recalculate_balance_debit_last:
  "recalculate_balance tenths_debit_last = Finite False (1 / 2 ^ 54)"
proof -
  have "recalculate_balance tenths_debit_last =
      jsSub (jsAdd (jsAdd (Finite False 0) (Finite False double_0_1)) (Finite False double_0_2))
        (Finite False double_0_3)"
    unfolding recalculate_balance_def tenths_debit_last_def example_tx_def
      num_double_0_1 num_double_0_2 num_double_0_3
    by (simp add: credit_debit_distinct debit_credit_distinct del: jsAdd.simps)
  then show ?thesis
    by (simp only: add_0_1 add_0_1_0_2 sub_sum_0_3)
qed

lemma recalculate_balance_tenths_flipped:
  "recalculate_balance (tenths_ledger[0 := example_tx ''t1'' ''c1'' double_0_1 ''debit'' 3000]) =
     Finite False double_0_1"
proof -
  have "recalculate_balance (tenths_ledger[0 := example_tx ''t1'' ''c1'' double_0_1 ''debit'' 3000]) =
      jsAdd (jsSub (Finite False 0) (Finite False double_0_1)) (Finite False double_0_2)"
    unfolding recalculate_balance_def tenths_ledger_def example_tx_def num_double_0_1 num_double_0_2
    by (simp add: credit_debit_distinct debit_credit_distinct del: jsAdd.simps)
  then show ?thesis
    by (simp only: sub_0_1 add_minus_0_1_0_2)
qed

lemma array_sort_tenths: "array_sort compareFn tenths_ledger = tenths_ledger"
  by (simp add: array_sort_def tenths_ledger_def example_tx_def compareFn_def dateMillis_def)

lemma array_sort_debit_second: "array_sort compareFn tenths_debit_second = tenths_debit_second"
  by (simp add: array_sort_def tenths_debit_second_def example_tx_def compareFn_def dateMillis_def)

lemma array_sort_debit_last: "array_sort compareFn tenths_debit_last = tenths_debit_last"
  by (simp add: array_sort_def tenths_debit_last_def example_tx_def compareFn_def dateMillis_def)

lemma example_c1_whole:
  "wholeLedger [example_tx ''t1'' ''c1'' 500 ''credit'' 1000, example_tx ''t3'' ''c1'' 200 ''debit'' 2000]"
  and example_c1_totals:
  "total (amounts (filter is_credit
      [example_tx ''t1'' ''c1'' 500 ''credit'' 1000, example_tx ''t3'' ''c1'' 200 ''debit'' 2000])) = 500"
  "total (amounts (filter is_debit
      [example_tx ''t1'' ''c1'' 500 ''credit'' 1000, example_tx ''t3'' ''c1'' 200 ''debit'' 2000])) = 200"
  by (simp_all add: wholeLedger_def example_tx_def is_credit_def is_debit_def credit_debit_distinct
      debit_credit_distinct amounts_def total_def toRat_def signedValue_def wholeAmount_def num_def)

subsection \<open>Forms and formatting\<close>

lemma dropWhile_all: "\<forall>c\<in>set s. P c \<Longrightarrow> dropWhile P s = []"
  by (induction s) simp_all

lemma trim_whitespace_only: "\<forall>c\<in>set s. isWhiteSpace c \<Longrightarrow> trim s = []"
  by (simp add: trim_def dropWhile_all)

lemma ascii_91: "ascii ''91'' = [0x39, 0x31]"
  and ascii_plus: "ascii ''+'' = [0x2B]"
  and ascii_plus91: "ascii ''+91'' = [0x2B, 0x39, 0x31]"
  by (simp_all add: ascii_def)

lemma isDigit_range: "isDigit = (\<lambda>c. c \<in> {0x30..0x39})"
  by (rule ext) (simp add: isDigit_def)


text \<open>
  What the view shows for a contact without transactions when the page binds \<open>appId\<close>:
  an empty list and the balance 0, loading finished, no message box.
\<close>

lemma subscribe_no_transactions:
  assumes "ready" and "cid \<noteq> []" and "appId w = Some a" and "query_transactions (db w) cid = []"
  shows "\<exists>w'. subscribe ready rejection cid (st, w) =
      Inr (st\<lparr>st_transactions := [], st_balance := Finite False 0, st_loadingTransactions := False\<rparr>, w')
    \<and> messageBox w' = messageBox w"
proof -
  let ?sw = "onSnapshot_next rejection cid [] (st\<lparr>st_loadingTransactions := True\<rparr>, w)"
  have "subscribe ready rejection cid (st, w) = Inr (fst ?sw, snd ?sw)"
    using assms by (simp add: subscribe_def)
  moreover have "fst ?sw =
      st\<lparr>st_transactions := [], st_balance := Finite False 0, st_loadingTransactions := False\<rparr>"
    by (simp add: onSnapshot_next_state array_sort_Nil recalculate_balance_def)
  moreover have "messageBox (snd ?sw) = messageBox w"
    by (rule onSnapshot_next_messageBox)
  ultimately show ?thesis by simp
qed

text \<open>Without a binding of \<open>appId\<close> neither form reaches the store.\<close>

lemma save_transaction_without_appId:
  assumes "appId w = None"
  shows "save_transaction rejection newId now2 customerSupplierName initial transactionData w =
    (False, w\<lparr>console_error := console_error w @ [(ascii ''Error saving transaction:'', referenceError)],
              messageBox := messageBox w @
                [(ascii ''Failed to save transaction: '' @ referenceError, ascii ''error'')]\<rparr>)"
  using assms by (simp add: save_transaction_def save_failed_def showMessageBox_def)

lemma decimalDigits_digits: "list_all isDigit (decimalDigits n)"
proof (induction n rule: decimalDigits.induct)
  case (1 n)
  show ?case
  proof (cases "n < 10")
    case True
    then show ?thesis
      by (subst decimalDigits.simps) (simp add: isDigit_def)
  next
    case False
    have "n mod 10 < 10" by simp
    then have "isDigit (0x30 + n mod 10)"
      unfolding isDigit_def by linarith
    with False "1.IH" show ?thesis
      by (subst decimalDigits.simps) simp
  qed
qed

lemma decimalDigits_nonempty: "decimalDigits n \<noteq> []"
  by (subst decimalDigits.simps) simp

lemma decimalValue_snoc: "decimalValue (ds @ [c]) = 10 * decimalValue ds + (c - 0x30)"
  by (simp add: decimalValue_def)

lemma decimalValue_decimalDigits: "decimalValue (decimalDigits n) = n"
proof (induction n rule: decimalDigits.induct)
  case (1 n)
  show ?case
  proof (cases "n < 10")
    case True
    then show ?thesis
      by (subst decimalDigits.simps) (simp add: decimalValue_def)
  next
    case False
    with "1.IH" show ?thesis
      by (subst decimalDigits.simps) (simp add: decimalValue_snoc)
  qed
qed

lemma groupPairs_grouped: "r \<noteq> [] \<Longrightarrow> list_all isDigit r \<Longrightarrow> pairsGrouped (groupPairs r)"
  by (induction r rule: groupPairs.induct) simp_all

lemma groupPairs_digits: "list_all isDigit r \<Longrightarrow> filter isDigit (groupPairs r) = r"
  by (induction r rule: groupPairs.induct) (simp_all add: isDigit_def)

lemma groupIndian_grouped:
  assumes "ds \<noteq> []" and "list_all isDigit ds"
  shows "indianGrouped (groupIndian ds)"
proof -
  from assms have r: "rev ds \<noteq> []" "list_all isDigit (rev ds)" by simp_all
  then show ?thesis
    unfolding indianGrouped_def groupIndian_def rev_rev_ident
    by (auto split: list.splits simp: groupPairs_grouped)
qed

lemma groupIndian_digits:
  assumes "list_all isDigit ds"
  shows "filter isDigit (groupIndian ds) = ds"
proof -
  from assms have r: "list_all isDigit (rev ds)" by simp
  have "filter isDigit (case rev ds of
            a # b # c # d # r \<Rightarrow> a # b # c # 0x2C # groupPairs (d # r)
          | r \<Rightarrow> r) = rev ds"
    using r groupPairs_digits
    by (auto split: list.splits simp: isDigit_def)
  then have "rev (filter isDigit (case rev ds of
            a # b # c # d # r \<Rightarrow> a # b # c # 0x2C # groupPairs (d # r)
          | r \<Rightarrow> r)) = ds"
    by simp
  then show ?thesis
    by (simp add: groupIndian_def rev_filter)
qed

lemma hundredths_digits: "10 * (10 * (n div 100) + n mod 100 div 10) + n mod 10 = (n::nat)"
proof -
  define q where "q = n div 100"
  define r where "r = n mod 100"
  define t where "t = r div 10"
  define u where "u = r mod 10"
  have "u = n mod 10"
    unfolding u_def r_def by (simp add: mod_mod_cancel)
  moreover have "10 * t + u = r"
    unfolding t_def u_def by simp
  moreover have "100 * q + r = n"
    unfolding q_def r_def by simp
  ultimately have "10 * (10 * q + t) + u = n"
    by simp
  with \<open>u = n mod 10\<close> show ?thesis
    by (simp add: q_def r_def t_def)
qed

lemma format_INR_shape:
  "\<exists>g d1 d2. format_INR negative m = (if negative then [0x2D] else []) @ [0x20B9] @ g @ [0x2E, d1, d2]
     \<and> indianGrouped g \<and> isDigit d1 \<and> isDigit d2
     \<and> decimalValue (filter isDigit g @ [d1, d2]) = roundedHundredths m"
proof -
  define n where "n = roundedHundredths m"
  define g where "g = groupIndian (decimalDigits (n div 100))"
  define d1 where "d1 = 0x30 + (n mod 100) div 10"
  define d2 where "d2 = 0x30 + n mod 10"
  have f: "format_INR negative m = (if negative then [0x2D] else []) @ [0x20B9] @ g @ [0x2E, d1, d2]"
    by (simp add: format_INR_def Let_def n_def g_def d1_def d2_def)
  have g: "indianGrouped g"
    unfolding g_def by (rule groupIndian_grouped [OF decimalDigits_nonempty decimalDigits_digits])
  have "(n mod 100) div 10 < 10" "n mod 10 < 10" by simp_all
  then have d: "isDigit d1" "isDigit d2"
    unfolding isDigit_def d1_def d2_def by linarith+
  have "filter isDigit g = decimalDigits (n div 100)"
    unfolding g_def by (rule groupIndian_digits [OF decimalDigits_digits])
  then have "decimalValue (filter isDigit g @ [d1, d2]) =
      10 * (10 * (n div 100) + (n mod 100) div 10) + n mod 10"
    using decimalValue_snoc [of "decimalDigits (n div 100) @ [d1]" d2]
      decimalValue_snoc [of "decimalDigits (n div 100)" d1]
    by (simp add: decimalValue_decimalDigits d1_def d2_def)
  also have "\<dots> = n"
    by (rule hundredths_digits)
  finally have v: "decimalValue (filter isDigit g @ [d1, d2]) = roundedHundredths m"
    by (simp add: n_def)
  from f g d v show ?thesis by blast
qed

lemma decimalDigits_small: "n < 10 \<Longrightarrow> decimalDigits n = [0x30 + n]"
  by (subst decimalDigits.simps) simp

lemma decimalDigits_12: "decimalDigits 12 = [0x31, 0x32]"
  by (simp add: decimalDigits.simps [of 12] decimalDigits_small)

lemma decimalDigits_123: "decimalDigits 123 = [0x31, 0x32, 0x33]"
  by (simp add: decimalDigits.simps [of 123] decimalDigits_12)

lemma decimalDigits_1234: "decimalDigits 1234 = [0x31, 0x32, 0x33, 0x34]"
  by (simp add: decimalDigits.simps [of 1234] decimalDigits_123)

text \<open>One step of the search for the shortest decimal.\<close>

lemma shortestFrom_skip:
  assumes "0 < fuel" and "\<lfloor>m / scale10 1 j\<rfloor> = int n"
    and "\<not> roundTrips m n j" and "\<not> roundTrips m (n + 1) j"
  shows "shortestFrom fuel j m = shortestFrom (fuel - 1) (j - 1) m"
proof -
  from assms(1) obtain f where "fuel = Suc f"
    by (cases fuel) simp_all
  with assms(2-4) show ?thesis
    by (simp add: Let_def)
qed

lemma shortestFrom_lo:
  assumes "0 < fuel" and "\<lfloor>m / scale10 1 j\<rfloor> = int n"
    and "roundTrips m n j" and "\<not> roundTrips m (n + 1) j"
  shows "shortestFrom fuel j m = scale10 (of_nat n) j"
proof -
  from assms(1) obtain f where "fuel = Suc f"
    by (cases fuel) simp_all
  with assms(2-4) show ?thesis
    by (simp add: Let_def)
qed

lemma shortestFrom_hi:
  assumes "0 < fuel" and "\<lfloor>m / scale10 1 j\<rfloor> = int n"
    and "\<not> roundTrips m n j" and "roundTrips m (n + 1) j"
  shows "shortestFrom fuel j m = scale10 (of_nat (n + 1)) j"
proof -
  from assms(1) obtain f where "fuel = Suc f"
    by (cases fuel) simp_all
  with assms(2-4) show ?thesis
    by (simp add: Let_def)
qed

lemmas roundTrips_eval = roundTrips_def decimalToDouble_def roundFraction_eval

text \<open>The number 12, which \<open>parseFloat\<close> reads from \<open>12abc\<close>.\<close>

lemma parseFloat_12abc: "parseFloat (JString (ascii ''12abc'')) = Finite False 12"
  by (simp add: parseFloat_def parseFloat_string_def startsWith_def ascii_def isWhiteSpace_def
      isDigit_def exponentPart_def decimalValue_def decimalToDouble_def roundFraction_eval)

lemma parseFloat_abc: "parseFloat (JString (ascii ''abc'')) = NaN"
  by (simp add: parseFloat_def parseFloat_string_def startsWith_def ascii_def isWhiteSpace_def
      isDigit_def)

lemma shortestDecimal_12: "shortestDecimal 12 = 12"
proof -
  have f: "\<lfloor>(12::rat) / scale10 1 2\<rfloor> = int 0" "\<lfloor>(12::rat) / scale10 1 1\<rfloor> = int 1"
    "\<lfloor>(12::rat) / scale10 1 0\<rfloor> = int 12"
    by (rule floor_unique; simp add: scale10_def)+
  have "shortestFrom 400 2 12 = shortestFrom 399 1 12"
    using shortestFrom_skip [of 400 12 2 0, OF _ f(1)] by (simp add: roundTrips_eval)
  also have "\<dots> = shortestFrom 398 0 12"
    using shortestFrom_skip [of 399 12 1 1, OF _ f(2)] by (simp add: roundTrips_eval)
  also have "\<dots> = 12"
    using shortestFrom_lo [of 398 12 0 12, OF _ f(3)] by (simp add: roundTrips_eval scale10_def)
  finally show ?thesis
    by (simp add: shortestDecimal_def decimalDigits_12)
qed

lemma floor_2401_2: "\<lfloor>2401 / 2 :: rat\<rfloor> = 1200"
  by (rule floor_unique) simp_all

lemma roundedHundredths_12: "roundedHundredths 12 = 1200"
  by (simp add: roundedHundredths_def shortestDecimal_12 floor_2401_2)

lemma format_INR_12: "format_INR False 12 = 0x20B9 # ascii ''12.00''"
  by (simp add: format_INR_def roundedHundredths_12 decimalDigits_12 groupIndian_def ascii_def)

text \<open>The number 1234.5.\<close>

lemma floor_2469_2: "\<lfloor>2469 / 2 :: rat\<rfloor> = 1234"
  by (rule floor_unique) simp_all

lemma shortestDecimal_12345: "shortestDecimal (2469 / 2) = 2469 / 2"
proof -
  let ?m = "2469 / 2 :: rat"
  have f: "\<lfloor>?m / scale10 1 4\<rfloor> = int 0" "\<lfloor>?m / scale10 1 3\<rfloor> = int 1"
    "\<lfloor>?m / scale10 1 2\<rfloor> = int 12" "\<lfloor>?m / scale10 1 1\<rfloor> = int 123"
    "\<lfloor>?m / scale10 1 0\<rfloor> = int 1234" "\<lfloor>?m / scale10 1 (- 1)\<rfloor> = int 12345"
    by (rule floor_unique; simp add: scale10_def)+
  have "shortestFrom 400 4 ?m = shortestFrom 399 3 ?m"
    using shortestFrom_skip [of 400 ?m 4 0, OF _ f(1)] by (simp add: roundTrips_eval)
  also have "\<dots> = shortestFrom 398 2 ?m"
    using shortestFrom_skip [of 399 ?m 3 1, OF _ f(2)] by (simp add: roundTrips_eval)
  also have "\<dots> = shortestFrom 397 1 ?m"
    using shortestFrom_skip [of 398 ?m 2 12, OF _ f(3)] by (simp add: roundTrips_eval)
  also have "\<dots> = shortestFrom 396 0 ?m"
    using shortestFrom_skip [of 397 ?m 1 123, OF _ f(4)] by (simp add: roundTrips_eval)
  also have "\<dots> = shortestFrom 395 (- 1) ?m"
    using shortestFrom_skip [of 396 ?m 0 1234, OF _ f(5)] by (simp add: roundTrips_eval)
  also have "\<dots> = ?m"
    using shortestFrom_lo [of 395 ?m "- 1" 12345, OF _ f(6)] by (simp add: roundTrips_eval scale10_def)
  finally show ?thesis
    by (simp add: shortestDecimal_def floor_2469_2 decimalDigits_1234)
qed

lemma floor_246901_2: "\<lfloor>246901 / 2 :: rat\<rfloor> = 123450"
  by (rule floor_unique) simp_all

lemma roundedHundredths_12345: "roundedHundredths (2469 / 2) = 123450"
  by (simp add: roundedHundredths_def shortestDecimal_12345 floor_246901_2)

lemma format_INR_12345: "format_INR False (2469 / 2) = 0x20B9 # ascii ''1,234.50''"
  by (simp add: format_INR_def roundedHundredths_12345 decimalDigits_1234 groupIndian_def ascii_def)

text \<open>
  The double nearest to 1.005 lies below it, and its shortest decimal is 1.005: the
  hundredths are rounded from that decimal, to 1.01.
\<close>

lemma parseFloat_1005:
  "parseFloat (JString (ascii ''1.005'')) = Finite False (1131529406376837 / 2 ^ 50)"
  by (simp add: parseFloat_def parseFloat_string_def startsWith_def ascii_def isWhiteSpace_def
      isDigit_def exponentPart_def decimalValue_def decimalToDouble_def roundFraction_eval)

lemma shortestDecimal_1005: "shortestDecimal (1131529406376837 / 2 ^ 50) = 201 / 200"
proof -
  let ?m = "1131529406376837 / 2 ^ 50 :: rat"
  have f: "\<lfloor>?m / scale10 1 1\<rfloor> = int 0" "\<lfloor>?m / scale10 1 0\<rfloor> = int 1"
    "\<lfloor>?m / scale10 1 (- 1)\<rfloor> = int 10" "\<lfloor>?m / scale10 1 (- 2)\<rfloor> = int 100"
    "\<lfloor>?m / scale10 1 (- 3)\<rfloor> = int 1004"
    by (rule floor_unique; simp add: scale10_def)+
  have d: "\<lfloor>?m\<rfloor> = 1"
    by (rule floor_unique) simp_all
  have "shortestFrom 400 1 ?m = shortestFrom 399 0 ?m"
    using shortestFrom_skip [of 400 ?m 1 0, OF _ f(1)] by (simp add: roundTrips_eval)
  also have "\<dots> = shortestFrom 398 (- 1) ?m"
    using shortestFrom_skip [of 399 ?m 0 1, OF _ f(2)] by (simp add: roundTrips_eval)
  also have "\<dots> = shortestFrom 397 (- 2) ?m"
    using shortestFrom_skip [of 398 ?m "- 1" 10, OF _ f(3)] by (simp add: roundTrips_eval)
  also have "\<dots> = shortestFrom 396 (- 3) ?m"
    using shortestFrom_skip [of 397 ?m "- 2" 100, OF _ f(4)] by (simp add: roundTrips_eval)
  also have "\<dots> = 201 / 200"
    using shortestFrom_hi [of 396 ?m "- 3" 1004, OF _ f(5)] by (simp add: roundTrips_eval scale10_def)
  finally show ?thesis
    unfolding shortestDecimal_def d by (simp add: decimalDigits_small)
qed

lemma formatRupee_1005:
  "formatRupee (JString (ascii ''1.005'')) = JString (0x20B9 # ascii ''1.01'')"
proof -
  have "roundedHundredths (1131529406376837 / 2 ^ 50) = 101"
    unfolding roundedHundredths_def shortestDecimal_1005 by simp
  then have "format_INR False (1131529406376837 / 2 ^ 50) = 0x20B9 # ascii ''1.01''"
    by (simp add: format_INR_def decimalDigits_small groupIndian_def ascii_def)
  then show ?thesis
    unfolding formatRupee_def parseFloat_1005 by simp
qed

text \<open>A literal beyond the largest double is read as infinity.\<close>

lemma bitLength_10_400: "bitLength (10 ^ 400) = 1329"
  using bitLength_eq [of 1328 "10 ^ 400"] by simp

lemma formatRupee_1e400:
  "parseFloat (JString (ascii ''1e400'')) = Infinity False
   \<and> formatRupee (JString (ascii ''1e400'')) = JString [0x20B9, 0x221E]"
proof -
  have "binaryExponent (10 ^ 400) 1 = 1328"
    unfolding binaryExponent_def bitLength_10_400 bitLength_one by simp
  then have "roundFraction False (10 ^ 400) 1 = Infinity False"
    by (simp add: roundFraction_def)
  then have "parseFloat (JString (ascii ''1e400'')) = Infinity False"
    by (simp add: parseFloat_def parseFloat_string_def startsWith_def ascii_def isWhiteSpace_def
      isDigit_def exponentPart_def decimalValue_def decimalToDouble_def)
  then show ?thesis
    by (simp add: formatRupee_def)
qed

section \<open>The claims\<close>

text \<open>
  Claim C1 says that the recomputed balance is the sum of the credits minus the sum of the
  debits. The balance is accumulated in double precision, one transaction after the
  other. For a credit of 0.1 followed by a credit of 0.2 the listener sets
  0.30000000000000004, which is not the sum of the two amounts. And the ledgers
  \<open>tenths_debit_second\<close> and \<open>tenths_debit_last\<close> have the same credits (0.1 and 0.2)
  and the same debit (0.3), at different dates: their balances differ, so the balance is
  no function of the sums.
\<close>

theorem C1_balance_rounded_counterexample:
  "st_balance (fst (onSnapshot_next None (ascii ''c1'') tenths_ledger
      (example_state, example_world tenths_ledger))) = Finite False (1351079888211149 / 2 ^ 52)
   \<and> total (amounts (filter is_credit tenths_ledger)) - total (amounts (filter is_debit tenths_ledger)) =
       10808639105689191 / 2 ^ 55
   \<and> (1351079888211149 / 2 ^ 52 :: rat) \<noteq> 10808639105689191 / 2 ^ 55
   \<and> mset (map (\<lambda>d. (txType (snd d), amount (snd d))) tenths_debit_second) =
       mset (map (\<lambda>d. (txType (snd d), amount (snd d))) tenths_debit_last)
   \<and> st_balance (fst (onSnapshot_next None (ascii ''c1'') tenths_debit_second
      (example_state, example_world tenths_debit_second))) = Finite False (1 / 2 ^ 55)
   \<and> st_balance (fst (onSnapshot_next None (ascii ''c1'') tenths_debit_last
      (example_state, example_world tenths_debit_last))) = Finite False (1 / 2 ^ 54)"
proof -
  have "total (amounts (filter is_credit tenths_ledger)) - total (amounts (filter is_debit tenths_ledger)) =
       10808639105689191 / 2 ^ 55"
    by (simp add: tenths_ledger_def example_tx_def is_credit_def is_debit_def credit_debit_distinct
        debit_credit_distinct amounts_def total_def toRat_num double_0_1_def double_0_2_def)
  moreover have "mset (map (\<lambda>d. (txType (snd d), amount (snd d))) tenths_debit_second) =
       mset (map (\<lambda>d. (txType (snd d), amount (snd d))) tenths_debit_last)"
    by (simp add: tenths_debit_second_def tenths_debit_last_def example_tx_def)
  ultimately show ?thesis
    by (simp add: onSnapshot_next_state array_sort_tenths array_sort_debit_second
        array_sort_debit_last recalculate_balance_tenths recalculate_balance_debit_second
        recalculate_balance_debit_last)
qed

text \<open>
  Claim C1, amended. The balance the listener sets on a snapshot is the balance
  recomputed from zero over the snapshot sorted by date, whatever the previous state,
  the store and the outcome of the write back are. When the credits and debits are whole
  numbers of at most \<open>2 ^ 53\<close> in total, it is the sum of the credits minus the sum of
  the debits, in whatever order the transactions come.
\<close>

theorem C1_balance_recomputed_from_snapshot:
  "st_balance (fst (onSnapshot_next rejection cid T (st, w))) =
     recalculate_balance (array_sort compareFn T)
   \<and> (wholeLedger T \<longrightarrow>
        recalculate_balance (array_sort compareFn T) =
          num (total (amounts (filter is_credit T)) - total (amounts (filter is_debit T)))
        \<and> recalculate_balance T =
          num (total (amounts (filter is_credit T)) - total (amounts (filter is_debit T))))"
  by (simp add: onSnapshot_next_state recalculate_balance_sorted_whole recalculate_balance_whole)

text \<open>
  The transactions of contact \<open>c1\<close> in the example ledger, a credit of 500 and a debit
  of 200: the stale balance 7 becomes 300.
\<close>

theorem C1_balance_recomputed_witness:
  "wholeLedger [example_tx ''t1'' ''c1'' 500 ''credit'' 1000, example_tx ''t3'' ''c1'' 200 ''debit'' 2000]
   \<and> st_balance (fst (onSnapshot_next None (ascii ''c1'')
        [example_tx ''t1'' ''c1'' 500 ''credit'' 1000, example_tx ''t3'' ''c1'' 200 ''debit'' 2000]
        (example_state, example_world example_ledger))) = Finite False 300"
proof -
  let ?D = "[example_tx ''t1'' ''c1'' 500 ''credit'' 1000, example_tx ''t3'' ''c1'' 200 ''debit'' 2000]"
  note t = C1_balance_recomputed_from_snapshot
    [of None "ascii ''c1''" ?D example_state "example_world example_ledger"]
  from t have a: "st_balance (fst (onSnapshot_next None (ascii ''c1'') ?D
      (example_state, example_world example_ledger))) = recalculate_balance (array_sort compareFn ?D)"
    by (rule conjunct1)
  from t example_c1_whole have b: "recalculate_balance (array_sort compareFn ?D) =
      num (total (amounts (filter is_credit ?D)) - total (amounts (filter is_debit ?D)))"
    by blast
  show ?thesis
    unfolding a b example_c1_totals by (simp add: example_c1_whole num_def)
qed

text \<open>
  Claim C2. On every snapshot the published list holds exactly the transactions of the
  store whose contact id is the subscribed one, each as often as the store has it, in
  descending order of date: of two published transactions with different dates the
  later one comes first.
\<close>

theorem C2_published_sorted_by_date_descending:
  "mset (published rejection cid (st, w)) =
     filter_mset (\<lambda>d. customerSupplierId (snd d) = cid) (mset (transactions (db w)))
   \<and> sorted_wrt (\<lambda>x y. dateMillis y \<le> dateMillis x) (published rejection cid (st, w))
   \<and> (\<forall>i j a b. i < length (published rejection cid (st, w))
         \<and> j < length (published rejection cid (st, w))
         \<and> date (snd (published rejection cid (st, w) ! i)) = Some a
         \<and> date (snd (published rejection cid (st, w) ! j)) = Some b
         \<and> b < a \<longrightarrow> i < j)"
proof -
  let ?out = "published rejection cid (st, w)"
  have m: "mset ?out =
     filter_mset (\<lambda>d. customerSupplierId (snd d) = cid) (mset (transactions (db w)))"
    by (simp add: published_eq mset_array_sort query_transactions_def)
  have s: "sorted_wrt (\<lambda>x y. dateMillis y \<le> dateMillis x) ?out"
    by (simp add: published_eq sorted_array_sort)
  have p: "i < j" if "i < length ?out" "j < length ?out"
      "date (snd (?out ! i)) = Some a" "date (snd (?out ! j)) = Some b" "b < a" for i j a b
  proof (rule ccontr)
    assume "\<not> i < j"
    then consider "j = i" | "j < i" by linarith
    then show False
    proof cases
      case 1
      with that show ?thesis by simp
    next
      case 2
      with s that(1) have "dateMillis (?out ! i) \<le> dateMillis (?out ! j)"
        by (simp add: sorted_wrt_iff_nth_less)
      with that show ?thesis by (simp add: dateMillis_def)
    qed
  qed
  from m s p show ?thesis by blast
qed

text \<open>
  The example ledger, watched for contact \<open>c1\<close>: the transaction of \<open>c2\<close> is left out and
  the later of the two others comes first.
\<close>

theorem C2_published_sorted_witness:
  "published None (ascii ''c1'') (example_state, example_world example_ledger) =
     [example_tx ''t3'' ''c1'' 200 ''debit'' 2000, example_tx ''t1'' ''c1'' 500 ''credit'' 1000]
   \<and> date (snd (published None (ascii ''c1'') (example_state, example_world example_ledger) ! 0)) = Some 2000
   \<and> date (snd (published None (ascii ''c1'') (example_state, example_world example_ledger) ! 1)) = Some 1000
   \<and> (1000 :: int) < 2000 \<and> (0 :: nat) < 1"
proof -
  have e: "published None (ascii ''c1'') (example_state, example_world example_ledger) =
     [example_tx ''t3'' ''c1'' 200 ''debit'' 2000, example_tx ''t1'' ''c1'' 500 ''credit'' 1000]"
    by (simp add: published_eq query_transactions_def example_world_def example_ledger_def
        example_tx_def ascii_def array_sort_def compareFn_def dateMillis_def)
  show ?thesis
    using C2_published_sorted_by_date_descending
      [of None "ascii ''c1''" example_state "example_world example_ledger"]
    by (simp add: e example_tx_def)
qed

text \<open>
  Claim C3 says that the balance of the empty list is 0 and that subscribing to a contact
  without transactions gives an empty list and the balance 0, not an error. The balance
  of the empty list is 0. The effect builds its query from \<open>appId\<close>, which the source
  binds nowhere the component can see: the subscription to contact \<open>c9\<close>, which has no
  transaction in the example ledger, throws \<open>ReferenceError\<close> before a listener is
  registered.
\<close>

theorem C3_subscribe_throws_without_appId:
  "recalculate_balance [] = Finite False 0
   \<and> ascii ''c9'' \<noteq> []
   \<and> query_transactions (db (without_appId (example_world example_ledger))) (ascii ''c9'') = []
   \<and> appId (without_appId (example_world example_ledger)) = None
   \<and> subscribe True None (ascii ''c9'') (example_state, without_appId (example_world example_ledger)) =
       Inl (ascii ''appId is not defined'')"
  by (simp add: recalculate_balance_def subscribe_def without_appId_def referenceError_def
      query_transactions_def example_world_def example_ledger_def example_tx_def ascii_def)

text \<open>The subscription ends in the error: no list and no balance are published.\<close>

theorem C3_subscribe_throws_witness:
  "isl (subscribe True None (ascii ''c9'') (example_state, without_appId (example_world example_ledger)))"
  using C3_subscribe_throws_without_appId by simp

text \<open>
  Claim C4. The outcome of the write of the balance onto the contact does not reach the
  view: whatever the backend answers and whatever the store holds, the listener sets the
  same sorted list and the same balance, and it shows no message box. A write that
  fails (no binding of \<open>appId\<close>, rejected by the backend, or no such contact) leaves one
  \<open>console.error\<close> line and the store as it was.
\<close>

theorem C4_write_back_failure_swallowed:
  "fst (onSnapshot_next rejection cid docs (st, w)) =
     fst (onSnapshot_next rejection' cid docs (st, w'))
   \<and> st_transactions (fst (onSnapshot_next rejection cid docs (st, w))) = array_sort compareFn docs
   \<and> st_balance (fst (onSnapshot_next rejection cid docs (st, w))) =
       recalculate_balance (array_sort compareFn docs)
   \<and> messageBox (snd (onSnapshot_next rejection cid docs (st, w))) = messageBox w
   \<and> (case balance_write rejection w cid (recalculate_balance (array_sort compareFn docs)) of
         Inl error \<Rightarrow>
           console_error (snd (onSnapshot_next rejection cid docs (st, w))) =
             console_error w @ [(ascii ''Error updating customer/supplier balance:'', error)]
           \<and> db (snd (onSnapshot_next rejection cid docs (st, w))) = db w
       | Inr db' \<Rightarrow>
           console_error (snd (onSnapshot_next rejection cid docs (st, w))) = console_error w
           \<and> db (snd (onSnapshot_next rejection cid docs (st, w))) = db')"
proof -
  have "case balance_write rejection w cid (recalculate_balance (array_sort compareFn docs)) of
         Inl error \<Rightarrow>
           console_error (snd (onSnapshot_next rejection cid docs (st, w))) =
             console_error w @ [(ascii ''Error updating customer/supplier balance:'', error)]
           \<and> db (snd (onSnapshot_next rejection cid docs (st, w))) = db w
       | Inr db' \<Rightarrow>
           console_error (snd (onSnapshot_next rejection cid docs (st, w))) = console_error w
           \<and> db (snd (onSnapshot_next rejection cid docs (st, w))) = db'"
    by (simp add: onSnapshot_next_def balance_write_def Let_def split: sum.splits option.splits)
  then show ?thesis
    by (simp add: onSnapshot_next_state onSnapshot_next_messageBox)
qed

text \<open>
  The backend rejects the write for the example ledger of contact \<open>c1\<close>: the view shows
  the two transactions and the balance 300, no message box, and one line is logged.
\<close>

theorem C4_write_back_failure_witness:
  "st_balance (fst (onSnapshot_next (Some (ascii ''permission-denied'')) (ascii ''c1'')
      (query_transactions (db (example_world example_ledger)) (ascii ''c1''))
      (example_state, example_world example_ledger))) = Finite False 300
   \<and> messageBox (snd (onSnapshot_next (Some (ascii ''permission-denied'')) (ascii ''c1'')
      (query_transactions (db (example_world example_ledger)) (ascii ''c1''))
      (example_state, example_world example_ledger))) = []
   \<and> console_error (snd (onSnapshot_next (Some (ascii ''permission-denied'')) (ascii ''c1'')
      (query_transactions (db (example_world example_ledger)) (ascii ''c1''))
      (example_state, example_world example_ledger))) =
     [(ascii ''Error updating customer/supplier balance:'', ascii ''permission-denied'')]"
proof -
  let ?R = "Some (ascii ''permission-denied'')"
  let ?D = "[example_tx ''t1'' ''c1'' 500 ''credit'' 1000, example_tx ''t3'' ''c1'' 200 ''debit'' 2000]"
  let ?W = "example_world example_ledger"
  have q: "query_transactions (db ?W) (ascii ''c1'') = ?D"
    by (simp add: query_transactions_def example_world_def example_ledger_def example_tx_def ascii_def)
  have b: "recalculate_balance (array_sort compareFn ?D) = Finite False 300"
    unfolding recalculate_balance_sorted_whole [OF example_c1_whole] example_c1_totals
    by (simp add: num_def)
  note t = C4_write_back_failure_swallowed
    [of ?R "ascii ''c1''" ?D example_state ?W ?R ?W]
  have w: "messageBox ?W = []" "console_error ?W = []"
    by (simp_all add: example_world_def)
  have u: "balance_write ?R ?W (ascii ''c1'') (recalculate_balance (array_sort compareFn ?D)) =
      Inl (ascii ''permission-denied'')"
    by (simp add: balance_write_def updateDoc_balance_def example_world_def)
  from t b have "st_balance (fst (onSnapshot_next ?R (ascii ''c1'') ?D (example_state, ?W))) =
      Finite False 300"
    by simp
  moreover from t w have "messageBox (snd (onSnapshot_next ?R (ascii ''c1'') ?D (example_state, ?W))) = []"
    by simp
  moreover from t [unfolded u] w
  have "console_error (snd (onSnapshot_next ?R (ascii ''c1'') ?D (example_state, ?W))) =
     [(ascii ''Error updating customer/supplier balance:'', ascii ''permission-denied'')]"
    by simp
  ultimately show ?thesis
    unfolding q by simp
qed

text \<open>
  Claim C5. A contact whose name is empty or white space only, and a transaction whose
  amount does not parse to a number greater than 0, are rejected with a message before
  any store call: the handler returns with the message box as the only change (store,
  store calls, log, \<open>onSave\<close> and \<open>loading\<close> as they were).
\<close>

theorem C5_invalid_input_rejected_before_store:
  "((\<forall>c\<in>set nameField. isWhiteSpace c) \<longrightarrow>
      addCustomer_handleSubmit ready rejection newId now nameField mobileField addressField (loading, w) =
        (loading, w\<lparr>messageBox := messageBox w @ [(ascii ''Name cannot be empty.'', ascii ''error'')]\<rparr>))
   \<and> (\<not> (\<exists>q. parseFloat_rawAmount (rawAmount form) = Some q \<and> 0 < q) \<longrightarrow>
      transactionForm_handleSubmit ready rejection newId now1 now2 cid customerSupplierName form (loading, w) =
        (loading, w\<lparr>messageBox := messageBox w @
                     [(ascii ''Please enter a valid positive amount.'', ascii ''error'')]\<rparr>))"
proof (intro conjI impI)
  assume "\<forall>c\<in>set nameField. isWhiteSpace c"
  then have "trim nameField = []"
    by (rule trim_whitespace_only)
  then show "addCustomer_handleSubmit ready rejection newId now nameField mobileField addressField (loading, w) =
      (loading, w\<lparr>messageBox := messageBox w @ [(ascii ''Name cannot be empty.'', ascii ''error'')]\<rparr>)"
    by (simp add: addCustomer_handleSubmit_def showMessageBox_def)
next
  assume invalid: "\<not> (\<exists>q. parseFloat_rawAmount (rawAmount form) = Some q \<and> 0 < q)"
  show "transactionForm_handleSubmit ready rejection newId now1 now2 cid customerSupplierName form (loading, w) =
      (loading, w\<lparr>messageBox := messageBox w @
                   [(ascii ''Please enter a valid positive amount.'', ascii ''error'')]\<rparr>)"
  proof (cases "parseFloat_rawAmount (rawAmount form)")
    case None
    then show ?thesis
      by (simp add: transactionForm_handleSubmit_def showMessageBox_def)
  next
    case (Some q)
    with invalid have "q \<le> 0" by auto
    with Some show ?thesis
      by (simp add: transactionForm_handleSubmit_def showMessageBox_def)
  qed
qed

text \<open>A name of two spaces and the amount 0, submitted with a connection.\<close>

theorem C5_invalid_input_witness:
  "list_all isWhiteSpace (ascii ''  '')
   \<and> parseFloat_rawAmount (rawAmount (example_form 0)) = Some 0
   \<and> db (snd (addCustomer_handleSubmit True None (ascii ''n1'') 7 (ascii ''  '') [] []
        (False, example_world []))) = db (example_world [])
   \<and> store_calls (snd (addCustomer_handleSubmit True None (ascii ''n1'') 7 (ascii ''  '') [] []
        (False, example_world []))) = []
   \<and> db (snd (transactionForm_handleSubmit True None (ascii ''n1'') 7 8 (ascii ''c1'')
        (ascii ''Asha'') (example_form 0) (False, example_world []))) = db (example_world [])
   \<and> store_calls (snd (transactionForm_handleSubmit True None (ascii ''n1'') 7 8 (ascii ''c1'')
        (ascii ''Asha'') (example_form 0) (False, example_world []))) = []"
proof -
  have h1: "\<forall>c\<in>set (ascii ''  ''). isWhiteSpace c"
    by (simp add: ascii_def isWhiteSpace_def)
  have h2: "\<not> (\<exists>q. parseFloat_rawAmount (rawAmount (example_form 0)) = Some q \<and> 0 < q)"
    by (simp add: parseFloat_rawAmount_def example_form_def)
  have h3: "list_all isWhiteSpace (ascii ''  '')"
    "parseFloat_rawAmount (rawAmount (example_form 0)) = Some 0"
    by (simp_all add: ascii_def isWhiteSpace_def parseFloat_rawAmount_def example_form_def)
  show ?thesis
    using h1 h2 h3 C5_invalid_input_rejected_before_store
      [of "ascii ''  ''" True None "ascii ''n1''" 7 "[]" "[]" False "example_world []"
        "example_form 0" 7 8 "ascii ''c1''" "ascii ''Asha''"]
    by (simp add: example_world_def)
qed




text \<open>
  Claim C7 says that every numeric input gives a currency string with exactly two
  fraction digits and that every input that is not numeric is returned unchanged. The
  string \<open>12abc\<close> is not a number, yet it is formatted, as 12; \<open>Infinity\<close> is a number,
  and its result has no fraction digits.
\<close>

theorem C7_formatRupee_counterexample:
  "formatRupee (JString (ascii ''12abc'')) = JString (0x20B9 # ascii ''12.00'')
   \<and> formatRupee (JNumber (Infinity False)) = JString [0x20B9, 0x221E]"
proof -
  have "formatRupee (JString (ascii ''12abc'')) = JString (format_INR False 12)"
    unfolding formatRupee_def parseFloat_12abc by simp
  moreover have "formatRupee (JNumber (Infinity False)) = JString [0x20B9, 0x221E]"
    by (simp add: formatRupee_def parseFloat_def)
  ultimately show ?thesis
    by (simp only: format_INR_12 simp_thms)
qed

text \<open>
  Claim C7, amended. The input is read as \<open>parseFloat\<close> reads it. When that gives
  \<open>NaN\<close>, the input value is returned unchanged. When it gives a finite number, the
  result is a string: a minus sign if the number is negative, the rupee sign, the
  integer part in Indian grouping, a point and exactly two fraction digits, and these
  digits are the shortest decimal of the number rounded to hundredths. (An infinite
  number gives the rupee sign and the infinity sign.)
\<close>

theorem C7_formatRupee_two_fraction_digits_or_unchanged:
  "case parseFloat v of
     NaN \<Rightarrow> formatRupee v = v
   | Infinity negative \<Rightarrow>
       formatRupee v = JString ((if negative then [0x2D] else []) @ [0x20B9, 0x221E])
   | Finite negative m \<Rightarrow>
       (\<exists>g d1 d2.
          formatRupee v = JString ((if negative then [0x2D] else []) @ [0x20B9] @ g @ [0x2E, d1, d2])
          \<and> indianGrouped g \<and> isDigit d1 \<and> isDigit d2
          \<and> decimalValue (filter isDigit g @ [d1, d2]) = roundedHundredths m)"
proof (cases "parseFloat v")
  case (Finite negative m)
  with format_INR_shape [of negative m] show ?thesis
    by (auto simp: formatRupee_def)
next
  case (Infinity negative)
  then show ?thesis by (simp add: formatRupee_def)
next
  case NaN
  then show ?thesis by (simp add: formatRupee_def)
qed

text \<open>The examples of the specification: 1234.5 and \<open>abc\<close>.\<close>

theorem C7_formatRupee_witness:
  "parseFloat (number (12345 / 10)) = Finite False (2469 / 2)
   \<and> formatRupee (number (12345 / 10)) = JString (0x20B9 # ascii ''1,234.50'')
   \<and> indianGrouped (ascii ''1,234'')
   \<and> parseFloat (JString (ascii ''abc'')) = NaN
   \<and> formatRupee (JString (ascii ''abc'')) = JString (ascii ''abc'')"
proof -
  have p: "parseFloat (number (12345 / 10)) = Finite False (2469 / 2)"
    by (simp add: parseFloat_def number_def num_def)
  have "formatRupee (number (12345 / 10)) = JString (format_INR False (2469 / 2))"
    unfolding formatRupee_def p by simp
  then have f: "formatRupee (number (12345 / 10)) = JString (0x20B9 # ascii ''1,234.50'')"
    by (simp only: format_INR_12345)
  have g: "indianGrouped (ascii ''1,234'')"
    by (simp add: indianGrouped_def ascii_def isDigit_def)
  have a: "formatRupee (JString (ascii ''abc'')) = JString (ascii ''abc'')"
    using C7_formatRupee_two_fraction_digits_or_unchanged [of "JString (ascii ''abc'')"]
    by (simp add: parseFloat_abc)
  from p f g a parseFloat_abc show ?thesis by simp
qed

text \<open>
  Claim C8 gives the phone rule for every input string. The function returns the empty
  string for the empty input, where the rule gives \<open>+91\<close>.
\<close>

theorem C8_empty_mobile_counterexample:
  "getFormattedMobileForWhatsApp [] = [] \<and> spec_phone_normalization [] = ascii ''+91''"
  by (simp add: getFormattedMobileForWhatsApp_def spec_phone_normalization_def ascii_def)

text \<open>
  Claim C8, amended. For every input string that is not empty the output follows the
  rule: the digits of the input, prefixed with \<open>+\<close> if they begin with \<open>91\<close> and are at
  least ten, with \<open>+91\<close> otherwise; so \<open>9876543210\<close> and \<open>919876543210\<close> both give
  \<open>+919876543210\<close>. For the empty input the output is empty.
\<close>

theorem C8_phone_normalization_nonempty:
  assumes "mobileNumber \<noteq> []"
  shows "getFormattedMobileForWhatsApp mobileNumber = spec_phone_normalization mobileNumber
    \<and> getFormattedMobileForWhatsApp (ascii ''9876543210'') = ascii ''+919876543210''
    \<and> getFormattedMobileForWhatsApp (ascii ''919876543210'') = ascii ''+919876543210''
    \<and> getFormattedMobileForWhatsApp [] = []"
proof -
  have "getFormattedMobileForWhatsApp mobileNumber = spec_phone_normalization mobileNumber"
    using assms
    by (simp add: getFormattedMobileForWhatsApp_def spec_phone_normalization_def startsWith_def
        ascii_91 ascii_plus ascii_plus91 isDigit_range Let_def numeral_2_eq_2)
  moreover have "getFormattedMobileForWhatsApp (ascii ''9876543210'') = ascii ''+919876543210''"
    by (simp add: getFormattedMobileForWhatsApp_def startsWith_def ascii_def isDigit_def)
  moreover have "getFormattedMobileForWhatsApp (ascii ''919876543210'') = ascii ''+919876543210''"
    by (simp add: getFormattedMobileForWhatsApp_def startsWith_def ascii_def isDigit_def)
  moreover have "getFormattedMobileForWhatsApp [] = []"
    by (simp add: getFormattedMobileForWhatsApp_def)
  ultimately show ?thesis by simp
qed

text \<open>A number typed with its country code, a space and a dash.\<close>

theorem C8_phone_normalization_witness:
  "ascii ''+91 98765-43210'' \<noteq> []
   \<and> getFormattedMobileForWhatsApp (ascii ''+91 98765-43210'') = ascii ''+919876543210''"
  using C8_phone_normalization_nonempty [of "ascii ''+91 98765-43210''"]
  by (simp add: spec_phone_normalization_def ascii_def)

text \<open>
  Claim C9 says that turning a credit of amount \<open>a\<close> into a debit lowers the balance by
  exactly \<open>2 * a\<close>. With a credit of 0.1 and a credit of 0.2 the balance is
  0.30000000000000004; with the first one a debit it is 0.1. The difference is
  0.20000000000000004, exactly and as the doubles are subtracted, and twice the amount
  is 0.2.
\<close>

theorem C9_credit_to_debit_counterexample:
  "is_credit (tenths_ledger ! 0)
   \<and> amount (snd (tenths_ledger ! 0)) = Finite False double_0_1
   \<and> is_debit (example_tx ''t1'' ''c1'' double_0_1 ''debit'' 3000)
   \<and> amount (snd (example_tx ''t1'' ''c1'' double_0_1 ''debit'' 3000)) = Finite False double_0_1
   \<and> recalculate_balance tenths_ledger = Finite False (1351079888211149 / 2 ^ 52)
   \<and> recalculate_balance (tenths_ledger[0 := example_tx ''t1'' ''c1'' double_0_1 ''debit'' 3000]) =
       Finite False double_0_1
   \<and> jsSub (recalculate_balance tenths_ledger)
       (recalculate_balance (tenths_ledger[0 := example_tx ''t1'' ''c1'' double_0_1 ''debit'' 3000])) =
       Finite False (7205759403792795 / 2 ^ 55)
   \<and> 1351079888211149 / 2 ^ 52 - double_0_1 = 7205759403792795 / 2 ^ 55
   \<and> 2 * double_0_1 = 7205759403792794 / 2 ^ 55"
proof -
  have "is_credit (tenths_ledger ! 0)"
    "amount (snd (tenths_ledger ! 0)) = Finite False double_0_1"
    "is_debit (example_tx ''t1'' ''c1'' double_0_1 ''debit'' 3000)"
    "amount (snd (example_tx ''t1'' ''c1'' double_0_1 ''debit'' 3000)) = Finite False double_0_1"
    by (simp_all add: tenths_ledger_def example_tx_def is_credit_def is_debit_def num_double_0_1)
  moreover have "1351079888211149 / 2 ^ 52 - double_0_1 = 7205759403792795 / 2 ^ 55"
    "2 * double_0_1 = 7205759403792794 / 2 ^ 55"
    by (simp_all add: double_0_1_def)
  ultimately show ?thesis
    by (simp only: recalculate_balance_tenths recalculate_balance_tenths_flipped sub_sum_0_1 simp_thms)
qed

text \<open>
  Claim C9, amended. In a ledger whose credits and debits are whole numbers of at most
  \<open>2 ^ 53\<close> in total, replacing a credit of amount \<open>a > 0\<close> by a debit of the same amount
  (its other fields may change too) lowers the recomputed balance by exactly \<open>2 * a\<close>,
  also when the new date moves the transaction in the sorted list.
\<close>

theorem C9_credit_to_debit_lowers_whole_balance_by_twice_amount:
  assumes "i < length T" and "is_credit (T ! i)" and "amount (snd (T ! i)) = Finite False a"
    and "0 < a" and "is_debit d'" and "amount (snd d') = Finite False a" and "wholeLedger T"
  shows "recalculate_balance (T[i := d']) = num (toRat (recalculate_balance T) - 2 * a)
    \<and> recalculate_balance (array_sort compareFn (T[i := d'])) =
        num (toRat (recalculate_balance (array_sort compareFn T)) - 2 * a)"
proof -
  note w = credit_to_debit_whole [OF assms(1,2,3,5,6,7)]
  show ?thesis
    by (simp add: recalculate_balance_whole [OF w(1)] recalculate_balance_sorted_whole [OF w(1)]
        recalculate_balance_whole [OF assms(7)] recalculate_balance_sorted_whole [OF assms(7)]
        w(2) toRat_num)
qed

text \<open>The credit of 500 of the example ledger becomes a debit: the balance goes from 350 to -650.\<close>

theorem C9_credit_to_debit_witness:
  "0 < length example_ledger \<and> is_credit (example_ledger ! 0)
   \<and> amount (snd (example_ledger ! 0)) = Finite False 500 \<and> (0 :: rat) < 500
   \<and> is_debit (example_tx ''t1'' ''c1'' 500 ''debit'' 1000)
   \<and> amount (snd (example_tx ''t1'' ''c1'' 500 ''debit'' 1000)) = Finite False 500
   \<and> wholeLedger example_ledger
   \<and> recalculate_balance example_ledger = Finite False 350
   \<and> recalculate_balance (example_ledger[0 := example_tx ''t1'' ''c1'' 500 ''debit'' 1000]) =
       Finite True 650"
proof -
  have h: "0 < length example_ledger" "is_credit (example_ledger ! 0)"
    "amount (snd (example_ledger ! 0)) = Finite False 500" "(0 :: rat) < 500"
    "is_debit (example_tx ''t1'' ''c1'' 500 ''debit'' 1000)"
    "amount (snd (example_tx ''t1'' ''c1'' 500 ''debit'' 1000)) = Finite False 500"
    by (simp_all add: example_ledger_def example_tx_def is_credit_def is_debit_def num_def)
  have w: "wholeLedger example_ledger"
    by (simp add: wholeLedger_def example_ledger_def example_tx_def is_credit_def is_debit_def
        credit_debit_distinct debit_credit_distinct amounts_def total_def toRat_def signedValue_def
      wholeAmount_def num_def)
  have "total (amounts (filter is_credit example_ledger)) - total (amounts (filter is_debit example_ledger)) = 350"
    by (simp add: example_ledger_def example_tx_def is_credit_def is_debit_def
        credit_debit_distinct debit_credit_distinct amounts_def total_def toRat_num)
  then have b: "recalculate_balance example_ledger = Finite False 350"
    by (simp add: recalculate_balance_whole [OF w] num_def)
  from C9_credit_to_debit_lowers_whole_balance_by_twice_amount [OF h w]
  have "recalculate_balance (example_ledger[0 := example_tx ''t1'' ''c1'' 500 ''debit'' 1000]) =
      num (toRat (recalculate_balance example_ledger) - 2 * 500)"
    by simp
  then have "recalculate_balance (example_ledger[0 := example_tx ''t1'' ''c1'' 500 ''debit'' 1000]) =
       Finite True 650"
    by (simp add: b toRat_def signedValue_def num_def)
  with h w b show ?thesis by simp
qed

text \<open>
  Claim C10. A transaction whose direction is neither \<open>credit\<close> nor \<open>debit\<close> adds nothing:
  the balance of \<open>T\<close> is the balance of the credits and debits of \<open>T\<close>, and the balance of
  the other transactions of \<open>T\<close> is 0.
\<close>

theorem C10_other_directions_contribute_zero:
  "recalculate_balance T = recalculate_balance (filter (\<lambda>d. is_credit d \<or> is_debit d) T)
   \<and> recalculate_balance (filter (\<lambda>d. \<not> is_credit d \<and> \<not> is_debit d) T) = Finite False 0"
  by (simp add: recalculate_balance_def foldl_balance_step_counted foldl_balance_step_others)

end
